theory Spec2Isabelle
  imports Main
begin

section \<open>Digital bookshelf: the account and book-collection API of \<^verbatim>\<open>server.js\<close>\<close>

text \<open>
  The development embeds the application of \<^verbatim>\<open>src/server.js\<close>: the middleware in the
  order in which it is installed, the middleware \<^verbatim>\<open>authenticateToken\<close>, the helper
  \<^verbatim>\<open>isValidEmail\<close> and the routes.

  A request carries its method, its path, its \<^verbatim>\<open>Authorization\<close> header and the body that
  \<^verbatim>\<open>express.json()\<close> has parsed, if it parses. A field that a handler destructures from
  the body is absent or any JSON value, and the handlers treat it as JavaScript does:
  \<^verbatim>\<open>!v\<close>, \<^verbatim>\<open>v.length\<close>, \<^verbatim>\<open>v < n\<close>, \<^verbatim>\<open>v === w\<close> and the conversion to a string are
  defined on all values. JavaScript strings are lists of characters with codes below
  256, and JSON numbers are the integers that a double holds exactly.

  The libraries and services that the handlers call are not part of the repository.
  \<^item> \<^verbatim>\<open>jsonwebtoken\<close>: a token is a signed set of claims. The compact serialisation is a
    parameter (\<open>jws_encode\<close>, \<open>jws_decode\<close>); signing records the key, verification
    compares keys and then the expiry, as the library does. Time is the library's
    clock, \<^verbatim>\<open>Math.floor(Date.now() / 1000)\<close>, in whole seconds.
  \<^item> \<^verbatim>\<open>bcryptjs\<close>: \<open>bcrypt_hash\<close> and \<open>bcrypt_compare\<close> are parameters on strings; both
    functions of the library throw when the password is not a string.
  \<^item> \<^verbatim>\<open>mongoose\<close>: the collection is the list of its documents in natural order.
    \<^verbatim>\<open>findOne\<close> and \<^verbatim>\<open>findById\<close> return the first match. \<^verbatim>\<open>save\<close> applies what the
    schema of \<^verbatim>\<open>server.js\<close> declares: the cast to \<^verbatim>\<open>String\<close>, the setters \<^verbatim>\<open>trim\<close> and
    \<^verbatim>\<open>lowercase\<close>, the validators \<^verbatim>\<open>required\<close> and \<^verbatim>\<open>minlength\<close>, and the unique
    indexes on \<^verbatim>\<open>username\<close> and \<^verbatim>\<open>email\<close>. A number or a boolean is cast to its text;
    what the cast makes of an array or an object, in a document (\<open>mongoose_string\<close>) and
    in a query filter (\<open>mongoose_filter\<close>), is a parameter, and so is the cast of the
    \<^verbatim>\<open>books\<close> of an update against the sub-schema (\<open>cast_books\<close>), which may throw.
    Whether the setters run on query filters depends on the version of the library and
    is the flag \<open>runSettersOnQuery\<close>. A document that is read shows each of the three
    sequences of \<^verbatim>\<open>books\<close>, empty when the stored value lacks it; the sequences are
    listed in the order of the schema.
  \<^item> \<^verbatim>\<open>express-rate-limit\<close> keeps its own count of the requests of an address; whether
    the count is exceeded when a request arrives is the flag \<open>over_limit\<close>.
    \<^verbatim>\<open>express.static\<close> answers with the file of \<^verbatim>\<open>public/\<close> that \<open>static_file\<close> gives,
    if any.
  \<^item> The exchange with the generative-language API is the pair of parameters
    \<open>generate_summary\<close> and \<open>generate_recommendations\<close>.
  A store that cannot be reached and a file that \<^verbatim>\<open>sendFile\<close> does not find are left
  out.
\<close>

subsection \<open>Strings\<close>

text \<open>The characters below 256 that the class \<^verbatim>\<open>\s\<close> and \<^verbatim>\<open>String.prototype.trim\<close>
  treat as white space.\<close>

definition is_space :: "char \<Rightarrow> bool" where
  "is_space c \<longleftrightarrow> c \<in> set [CHR 0x09, CHR 0x0A, CHR 0x0B, CHR 0x0C, CHR 0x0D, CHR 0x20, CHR 0xA0]"

definition trim :: "string \<Rightarrow> string" where
  "trim s = rev (dropWhile is_space (rev (dropWhile is_space s)))"

definition is_upper :: "char \<Rightarrow> bool" where
  "is_upper c \<longleftrightarrow>
     (let n = (of_char c :: nat)
      in (65 \<le> n \<and> n \<le> 90) \<or> (192 \<le> n \<and> n \<le> 222 \<and> n \<noteq> 215))"

text \<open>An upper-case letter and its lower-case form differ in the bit of weight 32.\<close>

definition lower_char :: "char \<Rightarrow> char" where
  "lower_char c =
     (if is_upper c
      then (case c of Char b0 b1 b2 b3 b4 b5 b6 b7 \<Rightarrow> Char b0 b1 b2 b3 b4 True b6 b7)
      else c)"

definition toLowerCase :: "string \<Rightarrow> string" where
  "toLowerCase s = map lower_char s"

text \<open>\<^verbatim>\<open>s.split(sep)\<close> with a separator of one character: a string with \<open>n\<close>
  separators has \<open>n + 1\<close> segments, and the empty string has the one segment \<open>''''\<close>.\<close>

fun split :: "char \<Rightarrow> string \<Rightarrow> string list" where
  "split sep [] = [[]]"
| "split sep (c # cs) =
     (if c = sep then [] # split sep cs
      else (case split sep cs of
              [] \<Rightarrow> [[c]]
            | seg # segs \<Rightarrow> (c # seg) # segs))"

text \<open>\<^verbatim>\<open>xs[i]\<close>: \<^verbatim>\<open>undefined\<close> out of range.\<close>

definition at_index :: "'a list \<Rightarrow> nat \<Rightarrow> 'a option" where
  "at_index xs i = (if i < length xs then Some (xs ! i) else None)"

text \<open>A value that is \<^verbatim>\<open>undefined\<close> or a string: \<^verbatim>\<open>!x\<close> holds of \<^verbatim>\<open>undefined\<close> and of
  the empty string.\<close>

definition falsy :: "string option \<Rightarrow> bool" where
  "falsy x \<longleftrightarrow> (case x of None \<Rightarrow> True | Some s \<Rightarrow> s = [])"

text \<open>The string that a value known not to be \<^verbatim>\<open>undefined\<close> is.\<close>

definition text_of :: "string option \<Rightarrow> string" where
  "text_of x = (case x of None \<Rightarrow> [] | Some s \<Rightarrow> s)"

text \<open>The decimal digits of a natural number, and the text of an integer.\<close>

function digits :: "nat \<Rightarrow> string" where
  "digits n =
     (if n < 10 then [''0123456789'' ! n]
      else digits (n div 10) @ [''0123456789'' ! (n mod 10)])"
  by pat_completeness auto
termination
  by (relation "measure (\<lambda>n. n)") auto

declare digits.simps [simp del]

definition decimal :: "int \<Rightarrow> string" where
  "decimal i = (if i < 0 then CHR ''-'' # digits (nat (- i)) else digits (nat i))"

subsection \<open>JSON values\<close>

datatype json =
    JNull
  | JBool bool
  | JNum int
  | JStr string
  | JArr "json list"
  | JObj "(string \<times> json) list"

text \<open>A value of a body is \<^verbatim>\<open>undefined\<close> (\<open>None\<close>) or a JSON value. \<^verbatim>\<open>!v\<close>:\<close>

definition js_not :: "json option \<Rightarrow> bool" where
  "js_not v \<longleftrightarrow>
     (case v of
        None \<Rightarrow> True
      | Some JNull \<Rightarrow> True
      | Some (JBool b) \<Rightarrow> \<not> b
      | Some (JNum n) \<Rightarrow> n = 0
      | Some (JStr s) \<Rightarrow> s = []
      | Some (JArr xs) \<Rightarrow> False
      | Some (JObj members) \<Rightarrow> False)"

text \<open>The value that is known not to be \<^verbatim>\<open>undefined\<close>.\<close>

definition value_of :: "json option \<Rightarrow> json" where
  "value_of v = (case v of None \<Rightarrow> JNull | Some x \<Rightarrow> x)"

text \<open>\<^verbatim>\<open>v.length\<close>: the length of a string or an array, the member \<^verbatim>\<open>length\<close> of an
  object, \<^verbatim>\<open>undefined\<close> of a number or a boolean.\<close>

definition length_of :: "json \<Rightarrow> json option" where
  "length_of v =
     (case v of
        JStr s \<Rightarrow> Some (JNum (int (length s)))
      | JArr xs \<Rightarrow> Some (JNum (int (length xs)))
      | JObj members \<Rightarrow> map_of members ''length''
      | _ \<Rightarrow> None)"

text \<open>The conversion of a value to a string, as a template literal and
  \<^verbatim>\<open>RegExp.prototype.test\<close> make it: an array is its elements joined by commas, \<^verbatim>\<open>null\<close>
  among them as the empty string; an object is \<^verbatim>\<open>[object Object]\<close>, unless a member
  \<^verbatim>\<open>toString\<close> hides the method, in which case the conversion throws a TypeError
  (\<open>None\<close>).\<close>

fun to_string :: "json \<Rightarrow> string option"
  and join :: "json list \<Rightarrow> string option" where
  "to_string JNull = Some ''null''"
| "to_string (JBool b) = Some (if b then ''true'' else ''false'')"
| "to_string (JNum n) = Some (decimal n)"
| "to_string (JStr s) = Some s"
| "to_string (JArr xs) = join xs"
| "to_string (JObj members) =
     (if ''toString'' \<in> set (map fst members) then None else Some ''[object Object]'')"
| "join [] = Some []"
| "join (x # xs) =
     (case (if x = JNull then Some [] else to_string x) of
        None \<Rightarrow> None
      | Some a \<Rightarrow>
          if xs = [] then Some a
          else (case join xs of None \<Rightarrow> None | Some b \<Rightarrow> Some (a @ '','' @ b)))"

text \<open>\<^verbatim>\<open>v === s\<close> for a string \<open>s\<close>.\<close>

definition is_string :: "json \<Rightarrow> string \<Rightarrow> bool" where
  "is_string v s \<longleftrightarrow> v = JStr s"

subsection \<open>Requests and responses\<close>

record req_body =
  username :: "json option"
  email :: "json option"
  password :: "json option"
  usernameOrEmail :: "json option"
  books :: "json option"
  title :: "json option"
  author :: "json option"
  genre :: "json option"

text \<open>The body is \<open>None\<close> when \<^verbatim>\<open>express.json()\<close> fails to parse it; a request without
  a JSON body has the body without fields.\<close>

record request =
  "method" :: string
  path :: string
  authorization :: "string option"
  body :: "req_body option"

text \<open>\<^verbatim>\<open>res.status(n).json(v)\<close>, \<^verbatim>\<open>res.sendFile(p)\<close>, \<^verbatim>\<open>res.status(n).send(text)\<close>, a
  response without a body, and the page of the framework for a request that no route
  answers.\<close>

datatype response =
    Response (status: nat) (payload: json)
  | SendFile string
  | SendText nat string
  | Status nat
  | NoRoute

definition error_body :: "string \<Rightarrow> json" where
  "error_body msg = JObj [(''error'', JStr msg)]"

subsection \<open>The user collection\<close>

record user =
  oid :: nat
  username :: string
  email :: string
  password :: string
  books :: json

type_synonym store = "user list"

datatype store_error =
    ValidationError
  | CastError
  | MongoServerError (code: nat) (keyPattern: "string list")

definition findById :: "nat option \<Rightarrow> store \<Rightarrow> user option" where
  "findById i s = (case i of None \<Rightarrow> None | Some n \<Rightarrow> find (\<lambda>u. oid u = n) s)"

text \<open>\<^verbatim>\<open>new User({username, email, password, books})\<close>: the setters of the schema run when
  the document is built; the identifier is new to the collection.\<close>

definition fresh_oid :: "store \<Rightarrow> nat" where
  "fresh_oid s = foldr (\<lambda>u m. max (Suc (oid u)) m) s 0"

definition new_User :: "store \<Rightarrow> string \<Rightarrow> string \<Rightarrow> string \<Rightarrow> json \<Rightarrow> user" where
  "new_User s un em pw bs =
     \<lparr>oid = fresh_oid s, username = trim un, email = toLowerCase (trim em),
      password = pw, books = bs\<rparr>"

text \<open>\<^verbatim>\<open>user.save()\<close> of a new document: the validators, then the insert, which the
  unique indexes (built in the order of the schema) may refuse with code 11000.\<close>

definition save :: "store \<Rightarrow> user \<Rightarrow> store_error + store" where
  "save s u =
     (if user.username u = [] \<or> user.email u = [] \<or> user.password u = []
         \<or> length (user.password u) < 6
      then Inl ValidationError
      else if \<exists>v \<in> set s. user.username v = user.username u
      then Inl (MongoServerError 11000 [''username''])
      else if \<exists>v \<in> set s. user.email v = user.email u
      then Inl (MongoServerError 11000 [''email''])
      else Inr (s @ [u]))"

text \<open>What a document that is read shows as \<^verbatim>\<open>books\<close>: the three sequences of the
  schema, each the stored one or the empty one.\<close>

definition shelf :: "string \<Rightarrow> json \<Rightarrow> json" where
  "shelf name bs =
     (case bs of
        JObj members \<Rightarrow> (case map_of members name of None \<Rightarrow> JArr [] | Some x \<Rightarrow> x)
      | _ \<Rightarrow> JArr [])"

definition hydrate_books :: "json \<Rightarrow> json" where
  "hydrate_books bs =
     JObj [(''read'', shelf ''read'' bs), (''unread'', shelf ''unread'' bs),
           (''wishlist'', shelf ''wishlist'' bs)]"

subsection \<open>Tokens\<close>

record jwt =
  signed_with :: string
  userId :: "nat option"
  iat :: nat
  expires :: "nat option"

datatype jwt_error = JsonWebTokenError | TokenExpiredError

text \<open>What a request finds outside the collection: the configuration, the clock, and
  the libraries and services that are parameters of the model.\<close>

datatype summary_outcome = SummaryFailed | NoSummary | Summary string

datatype recommendations_outcome = RecommendationsFailed | NoRecommendations | Recommendations json

record env =
  JWT_SECRET :: "string option"
  GEMINI_API_KEY :: "string option"
  now :: nat
  timestamp :: string
  uptime :: int
  jws_encode :: "jwt \<Rightarrow> string"
  jws_decode :: "string \<Rightarrow> jwt option"
  bcrypt_hash :: "string \<Rightarrow> string"
  bcrypt_compare :: "string \<Rightarrow> string \<Rightarrow> bool"
  runSettersOnQuery :: bool
  coerced_less :: "json \<Rightarrow> int \<Rightarrow> bool option"
  mongoose_string :: "json \<Rightarrow> string option"
  mongoose_filter :: "string \<Rightarrow> json \<Rightarrow> (string \<Rightarrow> bool) option"
  cast_books :: "json \<Rightarrow> json option"
  over_limit :: bool
  static_file :: "string \<Rightarrow> string option"
  generate_summary :: "string \<Rightarrow> string \<Rightarrow> summary_outcome"
  generate_recommendations :: "string \<Rightarrow> string \<Rightarrow> recommendations_outcome"

text \<open>\<^verbatim>\<open>v < n\<close> for a number \<open>n\<close>: \<^verbatim>\<open>undefined\<close> is not below any number; a value that
  is not a number is converted first, which is the parameter \<open>coerced_less\<close> and may
  throw (\<open>None\<close>).\<close>

definition less_than :: "env \<Rightarrow> json option \<Rightarrow> int \<Rightarrow> bool option" where
  "less_than e v n =
     (case v of
        None \<Rightarrow> Some False
      | Some (JNum k) \<Rightarrow> Some (k < n)
      | Some w \<Rightarrow> coerced_less e w n)"

text \<open>The cast of a value to the type \<^verbatim>\<open>String\<close> of a path of the schema; \<open>None\<close> is the
  CastError.\<close>

definition cast_string :: "env \<Rightarrow> json \<Rightarrow> string option" where
  "cast_string e v =
     (case v of
        JNull \<Rightarrow> None
      | JBool b \<Rightarrow> Some (if b then ''true'' else ''false'')
      | JNum n \<Rightarrow> Some (decimal n)
      | JStr s \<Rightarrow> Some s
      | JArr xs \<Rightarrow> mongoose_string e v
      | JObj members \<Rightarrow> mongoose_string e v)"

text \<open>\<^verbatim>\<open>User.findByIdAndUpdate(id, { books })\<close>: the value is cast against the schema
  and replaces the \<^verbatim>\<open>books\<close> of the document.\<close>

definition findByIdAndUpdate :: "env \<Rightarrow> nat \<Rightarrow> json \<Rightarrow> store \<Rightarrow> store_error + store" where
  "findByIdAndUpdate e i bs s =
     (case cast_books e bs of
        None \<Rightarrow> Inl CastError
      | Some kept \<Rightarrow> Inr (map (\<lambda>u. if oid u = i then u\<lparr>user.books := kept\<rparr> else u) s))"

text \<open>\<^verbatim>\<open>process.env.JWT_SECRET || 'your-secret-key'\<close>.\<close>

definition secret :: "env \<Rightarrow> string" where
  "secret e =
     (case JWT_SECRET e of
        None \<Rightarrow> ''your-secret-key''
      | Some key \<Rightarrow> if key = [] then ''your-secret-key'' else key)"

text \<open>The time span \<^verbatim>\<open>'7d'\<close>, in seconds.\<close>

definition seven_days :: nat where
  "seven_days = 7 * 24 * 60 * 60"

text \<open>\<^verbatim>\<open>jwt.sign({ userId: id }, key, { expiresIn: '7d' })\<close> at time \<open>t\<close>.\<close>

definition jwt_sign :: "nat \<Rightarrow> string \<Rightarrow> nat \<Rightarrow> jwt" where
  "jwt_sign i key t =
     \<lparr>signed_with = key, userId = Some i, iat = t, expires = Some (t + seven_days)\<rparr>"

text \<open>\<^verbatim>\<open>jwt.verify(token, key)\<close> at time \<open>t\<close>: the token is decoded, its signature is
  checked, then its expiry: a token is expired from the instant \<open>exp\<close> on.\<close>

definition jwt_check :: "jwt \<Rightarrow> string \<Rightarrow> nat \<Rightarrow> jwt_error + jwt" where
  "jwt_check j key t =
     (if signed_with j \<noteq> key then Inl JsonWebTokenError
      else (case expires j of
              None \<Rightarrow> Inr j
            | Some e \<Rightarrow> if e \<le> t then Inl TokenExpiredError else Inr j))"

definition jwt_verify :: "env \<Rightarrow> string \<Rightarrow> jwt_error + jwt" where
  "jwt_verify e token =
     (case jws_decode e token of
        None \<Rightarrow> Inl JsonWebTokenError
      | Some j \<Rightarrow> jwt_check j (secret e) (now e))"

text \<open>The token that \<^verbatim>\<open>/api/register\<close> and \<^verbatim>\<open>/api/login\<close> issue for a user.\<close>

definition issue_token :: "env \<Rightarrow> user \<Rightarrow> string" where
  "issue_token e u = jws_encode e (jwt_sign (oid u) (secret e) (now e))"

subsection \<open>The middleware \<^verbatim>\<open>authenticateToken\<close>\<close>

text \<open>\<^verbatim>\<open>authHeader && authHeader.split(' ')[1]\<close>.\<close>

definition header_token :: "string option \<Rightarrow> string option" where
  "header_token authHeader =
     (case authHeader of
        None \<Rightarrow> None
      | Some h \<Rightarrow> if h = [] then Some [] else at_index (split CHR '' '' h) 1)"

text \<open>The result is the response that ends the request, or the user that is attached to
  the request as \<^verbatim>\<open>req.user\<close> before \<^verbatim>\<open>next()\<close> runs.\<close>

definition authenticateToken :: "env \<Rightarrow> store \<Rightarrow> request \<Rightarrow> response + user" where
  "authenticateToken e s req =
     (let token = header_token (authorization req)
      in if falsy token then Inl (Response 401 (error_body ''Access token required''))
         else (case jwt_verify e (text_of token) of
                 Inl err \<Rightarrow> Inl (Response 403 (error_body ''Invalid or expired token''))
               | Inr decoded \<Rightarrow>
                   (case findById (userId decoded) s of
                      None \<Rightarrow> Inl (Response 403 (error_body ''User not found''))
                    | Some u \<Rightarrow> Inr u)))"

text \<open>A route behind the middleware: the handler runs with the attached user, or not at
  all.\<close>

definition protected ::
  "env \<Rightarrow> store \<Rightarrow> request \<Rightarrow> (user \<Rightarrow> response \<times> store) \<Rightarrow> response \<times> store" where
  "protected e s req handler =
     (case authenticateToken e s req of
        Inl rejection \<Rightarrow> (rejection, s)
      | Inr u \<Rightarrow> handler u)"

subsection \<open>\<^verbatim>\<open>isValidEmail\<close>\<close>

text \<open>The pattern \<^verbatim>\<open>/^[^\s@]+@[^\s@]+\.[^\s@]+$/\<close>: three non-empty runs of characters
  that are neither white space nor \<^verbatim>\<open>@\<close>, the first two separated by \<^verbatim>\<open>@\<close>, the last
  two by a dot. The test looks for the positions \<open>i\<close> of the \<^verbatim>\<open>@\<close> and \<open>j\<close> of the
  dot.\<close>

definition run_ok :: "string \<Rightarrow> bool" where
  "run_ok x \<longleftrightarrow> x \<noteq> [] \<and> list_all (\<lambda>c. \<not> is_space c \<and> c \<noteq> CHR ''@'') x"

definition isValidEmail :: "string \<Rightarrow> bool" where
  "isValidEmail em \<longleftrightarrow>
     list_ex (\<lambda>i. list_ex (\<lambda>j.
         em ! i = CHR ''@'' \<and> em ! j = CHR ''.''
       \<and> run_ok (take i em)
       \<and> run_ok (take (j - Suc i) (drop (Suc i) em))
       \<and> run_ok (drop (Suc j) em)) [Suc i ..< length em]) [0 ..< length em]"

subsection \<open>\<^verbatim>\<open>POST /api/register\<close>\<close>

text \<open>The object \<^verbatim>\<open>{ id: user._id, username: user.username, email: user.email }\<close> of the
  responses.\<close>

definition public_user :: "user \<Rightarrow> json" where
  "public_user u =
     JObj [(''id'', JNum (int (oid u))),
           (''username'', JStr (user.username u)),
           (''email'', JStr (user.email u))]"

definition empty_books :: json where
  "empty_books = JObj [(''read'', JArr []), (''unread'', JArr []), (''wishlist'', JArr [])]"

text \<open>The filter values of a query, after the setters of the schema where they run on
  queries.\<close>

definition query_username :: "env \<Rightarrow> string \<Rightarrow> string" where
  "query_username e x = (if runSettersOnQuery e then trim x else x)"

definition query_email :: "env \<Rightarrow> string \<Rightarrow> string" where
  "query_email e x = (if runSettersOnQuery e then toLowerCase (trim x) else x)"

text \<open>The condition \<^verbatim>\<open>{ name: v }\<close> of a filter on a path of type \<^verbatim>\<open>String\<close>, as a
  predicate on the stored string: a string, a number or a boolean is cast and compared;
  the cast of an array or an object is the parameter \<open>mongoose_filter\<close> and may throw
  (\<open>None\<close>).\<close>

definition condition ::
  "env \<Rightarrow> string \<Rightarrow> (string \<Rightarrow> string) \<Rightarrow> json \<Rightarrow> (string \<Rightarrow> bool) option" where
  "condition e name setters v =
     (case v of
        JNull \<Rightarrow> Some (\<lambda>stored. False)
      | JBool b \<Rightarrow> Some (\<lambda>stored. stored = setters (if b then ''true'' else ''false''))
      | JNum n \<Rightarrow> Some (\<lambda>stored. stored = setters (decimal n))
      | JStr x \<Rightarrow> Some (\<lambda>stored. stored = setters x)
      | JArr xs \<Rightarrow> mongoose_filter e name v
      | JObj members \<Rightarrow> mongoose_filter e name v)"

text \<open>The filter \<^verbatim>\<open>{ $or: [{ email }, { username }] }\<close>.\<close>

definition register_filter :: "env \<Rightarrow> json \<Rightarrow> json \<Rightarrow> (user \<Rightarrow> bool) option" where
  "register_filter e em un =
     (case condition e ''email'' (query_email e) em of
        None \<Rightarrow> None
      | Some on_email \<Rightarrow>
          (case condition e ''username'' (query_username e) un of
             None \<Rightarrow> None
           | Some on_username \<Rightarrow>
               Some (\<lambda>u. on_email (user.email u) \<or> on_username (user.username u))))"

text \<open>The \<^verbatim>\<open>catch\<close> block of the route.\<close>

definition register_catch :: "store_error \<Rightarrow> response" where
  "register_catch err =
     (case err of
        MongoServerError c keys \<Rightarrow>
          if c = 11000
          then Response 400 (error_body
                 ((case keys of [] \<Rightarrow> ''undefined'' | field # _ \<Rightarrow> field) @ '' already exists''))
          else Response 500 (error_body ''Server error during registration'')
      | _ \<Rightarrow> Response 500 (error_body ''Server error during registration''))"

text \<open>The response of the \<^verbatim>\<open>catch\<close> block to an error that is not one of the store:
  a TypeError of a conversion, the error of \<^verbatim>\<open>bcrypt.hash\<close>, the CastError of a query.\<close>

definition register_thrown :: response where
  "register_thrown = Response 500 (error_body ''Server error during registration'')"

text \<open>From \<^verbatim>\<open>bcrypt.hash\<close> to the response. \<^verbatim>\<open>bcrypt.hash\<close> throws unless the password
  is a string. A username or an email that the schema cannot cast makes \<^verbatim>\<open>save\<close> fail
  validation. The handler is suspended at each \<^verbatim>\<open>await\<close>; \<open>others\<close> is what the
  requests served in the meantime do to the collection between the query for an existing
  user and the insert.\<close>

definition register_insert ::
  "env \<Rightarrow> store \<Rightarrow> json \<Rightarrow> json \<Rightarrow> json \<Rightarrow> response \<times> store" where
  "register_insert e s un em pw =
     (case pw of
        JStr plain \<Rightarrow>
          (let hashedPassword = bcrypt_hash e plain
           in (case cast_string e un of
                 None \<Rightarrow> (register_catch ValidationError, s)
               | Some name \<Rightarrow>
                   (case cast_string e em of
                      None \<Rightarrow> (register_catch ValidationError, s)
                    | Some address \<Rightarrow>
                        (let u = new_User s name address hashedPassword empty_books
                         in (case save s u of
                               Inl err \<Rightarrow> (register_catch err, s)
                             | Inr s' \<Rightarrow>
                                 (Response 201
                                    (JObj [(''message'', JStr ''User created successfully''),
                                           (''token'', JStr (issue_token e u)),
                                           (''user'', public_user u)]), s'))))))
      | _ \<Rightarrow> (register_thrown, s))"

text \<open>The query for an existing user and what follows it.\<close>

definition register_checked ::
  "env \<Rightarrow> (store \<Rightarrow> store) \<Rightarrow> store \<Rightarrow> json \<Rightarrow> json \<Rightarrow> json \<Rightarrow> response \<times> store" where
  "register_checked e others s un em pw =
     (case register_filter e em un of
        None \<Rightarrow> (register_thrown, s)
      | Some matches \<Rightarrow>
          (case find matches s of
             None \<Rightarrow> register_insert e (others s) un em pw
           | Some existingUser \<Rightarrow>
               if is_string em (user.email existingUser)
               then (Response 400 (error_body ''Email already exists''), s)
               else if is_string un (user.username existingUser)
               then (Response 400 (error_body ''Username already exists''), s)
               else register_insert e (others s) un em pw))"

definition register ::
  "env \<Rightarrow> (store \<Rightarrow> store) \<Rightarrow> store \<Rightarrow> req_body \<Rightarrow> response \<times> store" where
  "register e others s b =
     (if js_not (req_body.username b) \<or> js_not (req_body.email b) \<or> js_not (req_body.password b)
      then (Response 400 (error_body ''All fields are required''), s)
      else
        let un = value_of (req_body.username b);
            em = value_of (req_body.email b);
            pw = value_of (req_body.password b)
        in (case less_than e (length_of un) 3 of
              None \<Rightarrow> (register_thrown, s)
            | Some True \<Rightarrow>
                (Response 400 (error_body ''Username must be at least 3 characters''), s)
            | Some False \<Rightarrow>
                (case to_string em of
                   None \<Rightarrow> (register_thrown, s)
                 | Some address \<Rightarrow>
                     if \<not> isValidEmail address
                     then (Response 400 (error_body ''Please enter a valid email address''), s)
                     else
                       (case less_than e (length_of pw) 6 of
                          None \<Rightarrow> (register_thrown, s)
                        | Some True \<Rightarrow>
                            (Response 400
                               (error_body ''Password must be at least 6 characters''), s)
                        | Some False \<Rightarrow> register_checked e others s un em pw))))"

text \<open>An input of three strings that passes the four guards at the head of the route.\<close>

definition passes_validation :: "req_body \<Rightarrow> bool" where
  "passes_validation b \<longleftrightarrow>
     (case (req_body.username b, req_body.email b, req_body.password b) of
        (Some (JStr un), Some (JStr em), Some (JStr pw)) \<Rightarrow>
          3 \<le> length un \<and> isValidEmail em \<and> 6 \<le> length pw
      | _ \<Rightarrow> False)"

subsection \<open>\<^verbatim>\<open>POST /api/login\<close>\<close>

text \<open>The filter \<^verbatim>\<open>{ $or: [{ username: usernameOrEmail }, { email: usernameOrEmail }] }\<close>.\<close>

definition login_filter :: "env \<Rightarrow> json \<Rightarrow> (user \<Rightarrow> bool) option" where
  "login_filter e ident =
     (case condition e ''username'' (query_username e) ident of
        None \<Rightarrow> None
      | Some on_username \<Rightarrow>
          (case condition e ''email'' (query_email e) ident of
             None \<Rightarrow> None
           | Some on_email \<Rightarrow>
               Some (\<lambda>u. on_username (user.username u) \<or> on_email (user.email u))))"

text \<open>The response of the \<^verbatim>\<open>catch\<close> block of the route: the query throws a CastError,
  or \<^verbatim>\<open>bcrypt.compare\<close> throws because the password is not a string.\<close>

definition login_thrown :: response where
  "login_thrown = Response 500 (error_body ''Server error during login'')"

definition login :: "env \<Rightarrow> store \<Rightarrow> req_body \<Rightarrow> response \<times> store" where
  "login e s b =
     (if js_not (usernameOrEmail b) \<or> js_not (req_body.password b)
      then (Response 400 (error_body ''Username/email and password are required''), s)
      else
        let ident = value_of (usernameOrEmail b);
            pw = value_of (req_body.password b)
        in (case login_filter e ident of
              None \<Rightarrow> (login_thrown, s)
            | Some matches \<Rightarrow>
                (case find matches s of
                   None \<Rightarrow> (Response 400 (error_body ''Invalid credentials''), s)
                 | Some u \<Rightarrow>
                     (case pw of
                        JStr plain \<Rightarrow>
                          if \<not> bcrypt_compare e plain (user.password u)
                          then (Response 400 (error_body ''Invalid credentials''), s)
                          else
                            (Response 200
                               (JObj [(''message'', JStr ''Login successful''),
                                      (''token'', JStr (issue_token e u)),
                                      (''user'', public_user u)]), s)
                      | _ \<Rightarrow> (login_thrown, s)))))"

subsection \<open>\<^verbatim>\<open>GET /api/books\<close> and \<^verbatim>\<open>PUT /api/books\<close>\<close>

text \<open>Reading \<^verbatim>\<open>user.books\<close> of a user that is no longer there throws, and the
  \<^verbatim>\<open>catch\<close> block answers.\<close>

definition get_books :: "store \<Rightarrow> user \<Rightarrow> response \<times> store" where
  "get_books s requester =
     (case findById (Some (oid requester)) s of
        None \<Rightarrow> (Response 500 (error_body ''Error fetching books''), s)
      | Some u \<Rightarrow> (Response 200 (hydrate_books (user.books u)), s))"

text \<open>\<^verbatim>\<open>!books || typeof books !== 'object'\<close>: what passes is an object or an array.\<close>

definition is_object :: "json option \<Rightarrow> bool" where
  "is_object v \<longleftrightarrow> (case v of Some (JObj _) \<Rightarrow> True | Some (JArr _) \<Rightarrow> True | _ \<Rightarrow> False)"

text \<open>The \<^verbatim>\<open>catch\<close> block answers when the cast of the update throws.\<close>

definition put_books :: "env \<Rightarrow> store \<Rightarrow> req_body \<Rightarrow> user \<Rightarrow> response \<times> store" where
  "put_books e s b requester =
     (case req_body.books b of
        None \<Rightarrow> (Response 400 (error_body ''Invalid books data''), s)
      | Some bs \<Rightarrow>
          if \<not> is_object (Some bs)
          then (Response 400 (error_body ''Invalid books data''), s)
          else (case findByIdAndUpdate e (oid requester) bs s of
                  Inl err \<Rightarrow> (Response 500 (error_body ''Error updating books''), s)
                | Inr s' \<Rightarrow>
                    (Response 200 (JObj [(''message'', JStr ''Books updated successfully'')]),
                     s')))"

subsection \<open>The other routes\<close>

text \<open>The prompt is a template literal with the title and the author; their conversion
  to a string may throw, and the \<^verbatim>\<open>catch\<close> block answers.\<close>

definition summary_prompt :: "string \<Rightarrow> string \<Rightarrow> string" where
  "summary_prompt t a =
     ''Provide a concise, 1-2 sentence summary of the book '' @ [CHR 0x27] @ t @ [CHR 0x27]
     @ '' by '' @ a @ ''. The summary should be objective and neutral.''"

definition ai_summary :: "env \<Rightarrow> store \<Rightarrow> req_body \<Rightarrow> response \<times> store" where
  "ai_summary e s b =
     (if js_not (title b) \<or> js_not (author b)
      then (Response 400 (error_body ''Title and author are required''), s)
      else (case to_string (value_of (title b)) of
              None \<Rightarrow> (Response 500 (error_body ''Error generating summary''), s)
            | Some t \<Rightarrow>
                (case to_string (value_of (author b)) of
                   None \<Rightarrow> (Response 500 (error_body ''Error generating summary''), s)
                 | Some a \<Rightarrow>
                     if falsy (GEMINI_API_KEY e)
                     then (Response 500 (error_body ''AI service is not configured''), s)
                     else (case generate_summary e (text_of (GEMINI_API_KEY e))
                                  (summary_prompt t a) of
                             SummaryFailed \<Rightarrow>
                               (Response 500 (error_body ''Error generating summary''), s)
                           | NoSummary \<Rightarrow>
                               (Response 500 (error_body ''Could not generate a summary''), s)
                           | Summary txt \<Rightarrow>
                               (Response 200 (JObj [(''summary'', JStr txt)]), s)))))"

text \<open>The prompt holds the genre and a random number; the service receives the genre.\<close>

definition ai_recommendations :: "env \<Rightarrow> store \<Rightarrow> req_body \<Rightarrow> response \<times> store" where
  "ai_recommendations e s b =
     (if js_not (genre b)
      then (Response 400 (error_body ''Genre is required''), s)
      else (case to_string (value_of (genre b)) of
              None \<Rightarrow> (Response 500 (error_body ''Error fetching recommendations''), s)
            | Some g \<Rightarrow>
                if falsy (GEMINI_API_KEY e)
                then (Response 500 (error_body ''AI service is not configured''), s)
                else (case generate_recommendations e (text_of (GEMINI_API_KEY e)) g of
                        RecommendationsFailed \<Rightarrow>
                          (Response 500 (error_body ''Error fetching recommendations''), s)
                      | NoRecommendations \<Rightarrow>
                          (Response 500 (error_body ''Could not fetch recommendations''), s)
                      | Recommendations recs \<Rightarrow>
                          (Response 200 (JObj [(''recommendations'', recs)]), s))))"

definition verify :: "store \<Rightarrow> user \<Rightarrow> response \<times> store" where
  "verify s requester = (Response 200 (JObj [(''user'', public_user requester)]), s)"

definition health :: "env \<Rightarrow> store \<Rightarrow> response \<times> store" where
  "health e s =
     (Response 200
        (JObj [(''status'', JStr ''OK''),
               (''timestamp'', JStr (timestamp e)),
               (''uptime'', JNum (uptime e))]), s)"

subsection \<open>The application\<close>

text \<open>A path matches the pattern of a route without regard to the case of its letters
  and with or without a slash at its end.\<close>

definition route :: "string \<Rightarrow> string \<Rightarrow> bool" where
  "route pattern p \<longleftrightarrow>
     (if pattern = ''/'' then p = ''/''
      else toLowerCase p = pattern \<or> toLowerCase p = pattern @ ''/'')"

text \<open>A route registered with \<^verbatim>\<open>app.get\<close> serves the methods \<^verbatim>\<open>GET\<close> and \<^verbatim>\<open>HEAD\<close>.\<close>

definition reading :: "request \<Rightarrow> bool" where
  "reading req \<longleftrightarrow> method req = ''GET'' \<or> method req = ''HEAD''"

text \<open>The routes in the order in which \<^verbatim>\<open>server.js\<close> registers them.\<close>

definition routes :: "env \<Rightarrow> store \<Rightarrow> request \<Rightarrow> req_body \<Rightarrow> response \<times> store" where
  "routes e s req b =
     (if method req = ''POST'' \<and> route ''/api/register'' (path req)
      then register e (\<lambda>c. c) s b
      else if method req = ''POST'' \<and> route ''/api/login'' (path req)
      then login e s b
      else if reading req \<and> route ''/api/books'' (path req)
      then protected e s req (get_books s)
      else if method req = ''PUT'' \<and> route ''/api/books'' (path req)
      then protected e s req (put_books e s b)
      else if method req = ''POST'' \<and> route ''/api/ai-summary'' (path req)
      then protected e s req (\<lambda>u. ai_summary e s b)
      else if method req = ''POST'' \<and> route ''/api/ai-recommendations'' (path req)
      then protected e s req (\<lambda>u. ai_recommendations e s b)
      else if reading req \<and> route ''/api/verify'' (path req)
      then protected e s req (verify s)
      else if reading req \<and> route ''/api/health'' (path req)
      then health e s
      else if reading req \<and> route ''/'' (path req)
      then (SendFile ''/public/index.html'', s)
      else if take 5 (toLowerCase (path req)) = ''/api/''
      then (Response 404 (error_body ''API endpoint not found''), s)
      else if reading req
      then (SendFile ''/public/auth.html'', s)
      else (NoRoute, s))"

text \<open>The middleware before the routes, in the order of \<^verbatim>\<open>server.js\<close>: \<^verbatim>\<open>cors()\<close>
  answers a request of method \<^verbatim>\<open>OPTIONS\<close>; a body that \<^verbatim>\<open>express.json()\<close> cannot parse
  goes to the error handler at the end of the file; the rate limiter refuses a request
  over the limit; \<^verbatim>\<open>express.static\<close> answers with a file of \<^verbatim>\<open>public/\<close>.\<close>

definition middleware :: "env \<Rightarrow> store \<Rightarrow> request \<Rightarrow> response \<times> store" where
  "middleware e s req =
     (case body req of
        None \<Rightarrow> (Response 500 (error_body ''Internal server error''), s)
      | Some b \<Rightarrow>
          if over_limit e
          then (SendText 429 ''Too many requests, please try again later.'', s)
          else (case (if reading req then static_file e (path req) else None) of
                  Some file \<Rightarrow> (SendFile file, s)
                | None \<Rightarrow> routes e s req b))"

text \<open>The response to a request of method \<^verbatim>\<open>HEAD\<close> is sent without its body.\<close>

definition headers_only :: "response \<Rightarrow> response" where
  "headers_only r =
     (case r of
        Response n v \<Rightarrow> Status n
      | SendFile file \<Rightarrow> Status 200
      | SendText n txt \<Rightarrow> Status n
      | Status n \<Rightarrow> Status n
      | NoRoute \<Rightarrow> Status 404)"

text \<open>One request is served at a time.\<close>

definition app :: "env \<Rightarrow> store \<Rightarrow> request \<Rightarrow> response \<times> store" where
  "app e s req =
     (if method req = ''OPTIONS'' then (Status 204, s)
      else if method req = ''HEAD''
      then (headers_only (fst (middleware e s req)), snd (middleware e s req))
      else middleware e s req)"

text \<open>The requests of a session, one after the other, each in the environment it finds.\<close>

fun serve :: "store \<Rightarrow> (env \<times> request) list \<Rightarrow> store" where
  "serve s [] = s"
| "serve s ((e, req) # rest) = serve (snd (app e s req)) rest"

subsection \<open>The shape of \<^verbatim>\<open>books\<close> and the stored digests\<close>

text \<open>A value with exactly the three sequences \<^verbatim>\<open>read\<close>, \<^verbatim>\<open>unread\<close> and
  \<^verbatim>\<open>wishlist\<close>: an object of three fields, among them an array under each of the
  three names.\<close>

definition is_array :: "json \<Rightarrow> bool" where
  "is_array v \<longleftrightarrow> (case v of JArr _ \<Rightarrow> True | _ \<Rightarrow> False)"

definition has_shelves :: "json \<Rightarrow> bool" where
  "has_shelves v \<longleftrightarrow>
     (case v of
        JObj members \<Rightarrow>
          length members = 3
          \<and> list_all (\<lambda>name. case map_of members name of
                                 None \<Rightarrow> False
                               | Some x \<Rightarrow> is_array x) [''read'', ''unread'', ''wishlist'']
      | _ \<Rightarrow> False)"

definition shelves_kept :: "store \<Rightarrow> bool" where
  "shelves_kept s \<longleftrightarrow> list_all (\<lambda>u. has_shelves (user.books u)) s"

text \<open>A request that is not a \<^verbatim>\<open>PUT\<close> on the route \<^verbatim>\<open>/api/books\<close> with a value that
  passes the check of the route and that the cast leaves without the three
  sequences.\<close>

definition sends_shelves :: "env \<Rightarrow> request \<Rightarrow> bool" where
  "sends_shelves e req \<longleftrightarrow>
     (if method req = ''PUT'' \<and> route ''/api/books'' (path req)
      then (case body req of
              None \<Rightarrow> True
            | Some b \<Rightarrow>
                (case req_body.books b of
                   None \<Rightarrow> True
                 | Some bs \<Rightarrow>
                     if is_object (Some bs)
                     then (case cast_books e bs of None \<Rightarrow> True | Some kept \<Rightarrow> has_shelves kept)
                     else True))
      else True)"

text \<open>The collection with the digest of each user \<open>u\<close> replaced by \<open>f u\<close>.\<close>

definition rehash :: "(user \<Rightarrow> string) \<Rightarrow> store \<Rightarrow> store" where
  "rehash f s = map (\<lambda>u. u\<lparr>user.password := f u\<rparr>) s"

text \<open>The collection without its digests.\<close>

definition without_digests :: "store \<Rightarrow> store" where
  "without_digests s = map (\<lambda>u. u\<lparr>user.password := []\<rparr>) s"

subsection \<open>Example data\<close>

text \<open>A cast of \<^verbatim>\<open>books\<close> for the examples, which hold no entries: of an object it
  keeps the sequences of the schema when they are empty and drops the other members; it
  throws on a sequence with entries and on any other value.\<close>

definition cast_empty_shelves :: "json \<Rightarrow> json option" where
  "cast_empty_shelves v =
     (case v of
        JObj members \<Rightarrow>
          if list_all (\<lambda>(name, x). if name \<in> set [''read'', ''unread'', ''wishlist'']
                                   then x = JArr [] else True) members
          then Some (JObj (filter (\<lambda>(name, x). name \<in> set [''read'', ''unread'', ''wishlist''])
                             members))
          else None
      | _ \<Rightarrow> None)"

text \<open>An environment with the default signing key, a serialisation that knows the one
  token \<open>''tok''\<close> (issued to the user 0 at the time 1000), and a digest that prefixes the
  password with a salt of two characters. Arrays and objects are refused where a string
  is expected.\<close>

definition example_env :: env where
  "example_env =
     \<lparr>JWT_SECRET = None, GEMINI_API_KEY = None, now = 1000,
      timestamp = ''2024-01-01T00:00:00.000Z'', uptime = 5,
      jws_encode = (\<lambda>j. ''tok''),
      jws_decode = (\<lambda>t. if t = ''tok'' then Some (jwt_sign 0 ''your-secret-key'' 1000) else None),
      bcrypt_hash = (\<lambda>p. ''$s'' @ p),
      bcrypt_compare = (\<lambda>p h. drop 2 h = p),
      runSettersOnQuery = True,
      coerced_less = (\<lambda>v n. Some False),
      mongoose_string = (\<lambda>v. None),
      mongoose_filter = (\<lambda>name v. None),
      cast_books = cast_empty_shelves,
      over_limit = False,
      static_file = (\<lambda>p. None),
      generate_summary = (\<lambda>k p. NoSummary),
      generate_recommendations = (\<lambda>k g. NoRecommendations)\<rparr>"

text \<open>A serialisation for the examples: the claims in decimal, separated by dots, then
  the key.\<close>

definition digit_value :: "char \<Rightarrow> nat option" where
  "digit_value c =
     map_of [(CHR ''0'', 0), (CHR ''1'', 1), (CHR ''2'', 2), (CHR ''3'', 3), (CHR ''4'', 4),
             (CHR ''5'', 5), (CHR ''6'', 6), (CHR ''7'', 7), (CHR ''8'', 8), (CHR ''9'', 9)] c"

fun number_from :: "nat \<Rightarrow> string \<Rightarrow> nat option" where
  "number_from acc [] = Some acc"
| "number_from acc (c # cs) =
     (case digit_value c of None \<Rightarrow> None | Some d \<Rightarrow> number_from (10 * acc + d) cs)"

definition optional_number :: "string \<Rightarrow> nat option option" where
  "optional_number s = (if s = [] then Some None else map_option Some (number_from 0 s))"

definition cut :: "char \<Rightarrow> string \<Rightarrow> (string \<times> string) option" where
  "cut sep s =
     (if sep \<in> set s
      then Some (takeWhile (\<lambda>c. c \<noteq> sep) s, tl (dropWhile (\<lambda>c. c \<noteq> sep) s))
      else None)"

definition compact :: "jwt \<Rightarrow> string" where
  "compact j =
     (case userId j of None \<Rightarrow> [] | Some n \<Rightarrow> digits n) @ ''.'' @ digits (iat j) @ ''.''
     @ (case expires j of None \<Rightarrow> [] | Some n \<Rightarrow> digits n) @ ''.'' @ signed_with j"

definition parse_compact :: "string \<Rightarrow> jwt option" where
  "parse_compact t =
     (case cut CHR ''.'' t of
        None \<Rightarrow> None
      | Some (a, r1) \<Rightarrow>
          (case cut CHR ''.'' r1 of
             None \<Rightarrow> None
           | Some (b, r2) \<Rightarrow>
               (case cut CHR ''.'' r2 of
                  None \<Rightarrow> None
                | Some (c, key) \<Rightarrow>
                    (case (optional_number a, optional_number b, optional_number c) of
                       (Some subject, Some (Some issued), Some until) \<Rightarrow>
                         Some \<lparr>signed_with = key, userId = subject, iat = issued,
                               expires = until\<rparr>
                     | _ \<Rightarrow> None))))"

definition codec_env :: env where
  "codec_env = example_env\<lparr>jws_encode := compact, jws_decode := parse_compact\<rparr>"

definition alice :: user where
  "alice = \<lparr>oid = 0, username = ''alice'', email = ''alice@example.com'',
            password = ''$ssecret1'', books = empty_books\<rparr>"

definition bob :: user where
  "bob = \<lparr>oid = 1, username = ''bob'', email = ''bob@example.com'',
          password = ''$shunter22'', books = empty_books\<rparr>"

definition empty_body :: req_body where
  "empty_body =
     \<lparr>req_body.username = None, req_body.email = None, req_body.password = None,
      usernameOrEmail = None, req_body.books = None, title = None, author = None,
      genre = None\<rparr>"

definition register_body :: "string \<Rightarrow> string \<Rightarrow> string \<Rightarrow> req_body" where
  "register_body un em pw =
     empty_body\<lparr>req_body.username := Some (JStr un), req_body.email := Some (JStr em),
                req_body.password := Some (JStr pw)\<rparr>"

definition login_body :: "string \<Rightarrow> string \<Rightarrow> req_body" where
  "login_body ident pw =
     empty_body\<lparr>usernameOrEmail := Some (JStr ident), req_body.password := Some (JStr pw)\<rparr>"

definition books_body :: "json \<Rightarrow> req_body" where
  "books_body bs = empty_body\<lparr>req_body.books := Some bs\<rparr>"

text \<open>A digest of the example environment with the other salt.\<close>

definition resalt :: "user \<Rightarrow> string" where
  "resalt u = ''$t'' @ drop 2 (user.password u)"

definition request_with :: "string \<Rightarrow> string \<Rightarrow> string option \<Rightarrow> req_body \<Rightarrow> request" where
  "request_with m p h b = \<lparr>method = m, path = p, authorization = h, body = Some b\<rparr>"

section \<open>Properties\<close>

subsection \<open>The authorization header\<close>

lemma split_not_Nil: "split sep s \<noteq> []"
  by (induction s) (auto split: list.splits)

lemma split_without_sep: "sep \<notin> set w \<Longrightarrow> split sep w = [w]"
  by (induction w) auto

lemma split_at_first_sep: "sep \<notin> set w \<Longrightarrow> split sep (w @ sep # t) = w # split sep t"
  by (induction w) auto

lemma header_token_scheme:
  assumes "CHR '' '' \<notin> set w"
  shows "header_token (Some (w @ '' '' @ t)) = Some (hd (split CHR '' '' t))"
proof -
  have "split CHR '' '' (w @ '' '' @ t) = w # split CHR '' '' t"
    using split_at_first_sep [OF assms, of t] by simp
  moreover obtain seg segs where "split CHR '' '' t = seg # segs"
    using split_not_Nil [of "CHR '' ''" t] by (cases "split CHR '' '' t") auto
  ultimately show ?thesis
    by (simp add: header_token_def at_index_def)
qed

lemma header_token_no_space:
  assumes "CHR '' '' \<notin> set h"
  shows "falsy (header_token (Some h))"
  using split_without_sep [OF assms]
  by (simp add: header_token_def at_index_def falsy_def)

lemma header_token_example [simp]:
  "header_token (Some ''Bearer tok'') = Some ''tok''"
  "header_token (Some ''Basic tok'') = Some ''tok''"
  "header_token (Some ''Bearer garbage'') = Some ''garbage''"
  by (simp_all add: header_token_def at_index_def)

text \<open>The ways in which \<^verbatim>\<open>jwt.verify\<close> throws: the token does not decode, it is signed
  with another key, or it has expired.\<close>

lemma jwt_verify_failures:
  "jwt_verify e t = Inl err \<longleftrightarrow>
     (jws_decode e t = None \<and> err = JsonWebTokenError)
   \<or> (\<exists>j. jws_decode e t = Some j \<and> signed_with j \<noteq> secret e \<and> err = JsonWebTokenError)
   \<or> (\<exists>j x. jws_decode e t = Some j \<and> signed_with j = secret e \<and> expires j = Some x
         \<and> x \<le> now e \<and> err = TokenExpiredError)"
  by (auto simp: jwt_verify_def jwt_check_def split: option.splits if_splits)

lemma jwt_verify_example [simp]:
  "jwt_verify example_env ''tok'' = Inr (jwt_sign 0 ''your-secret-key'' 1000)"
  "jwt_verify example_env ''garbage'' = Inl JsonWebTokenError"
  by (simp_all add: jwt_verify_def jwt_check_def example_env_def secret_def jwt_sign_def
        seven_days_def)

text \<open>
  Claim C1. The middleware is a function of the \<^verbatim>\<open>Authorization\<close> header and the
  collection with four cases. Without a header, or with a header that yields no token,
  the request ends with status 401 and no user is attached. With a token that
  \<^verbatim>\<open>jwt.verify\<close> refuses (it does not decode, its signature is made with another key,
  or it has expired) the request ends with status 403. With a token that verifies for an
  identifier that no user of the collection has, the request ends with status 403. With
  a token that verifies for the identifier of a user, that user is attached and the
  handler of the route runs with it. In the first three cases the handler does not run
  and the collection is as before.
\<close>

theorem auth_gate_four_cases:
  "(authorization req = None \<or> falsy (header_token (authorization req)) \<longrightarrow>
      authenticateToken e s req = Inl (Response 401 (error_body ''Access token required''))
      \<and> protected e s req handler = (Response 401 (error_body ''Access token required''), s))
   \<and> (header_token (authorization req) = Some t \<and> t \<noteq> []
        \<and> (jws_decode e t = None
            \<or> (\<exists>j. jws_decode e t = Some j
                 \<and> (signed_with j \<noteq> secret e \<or> (\<exists>x. expires j = Some x \<and> x \<le> now e)))
            \<or> (\<exists>err. jwt_verify e t = Inl err)) \<longrightarrow>
      authenticateToken e s req = Inl (Response 403 (error_body ''Invalid or expired token''))
      \<and> protected e s req handler = (Response 403 (error_body ''Invalid or expired token''), s))
   \<and> (header_token (authorization req) = Some t \<and> t \<noteq> [] \<and> jwt_verify e t = Inr decoded
        \<and> findById (userId decoded) s = None \<longrightarrow>
      authenticateToken e s req = Inl (Response 403 (error_body ''User not found''))
      \<and> protected e s req handler = (Response 403 (error_body ''User not found''), s))
   \<and> (header_token (authorization req) = Some t \<and> t \<noteq> [] \<and> jwt_verify e t = Inr decoded
        \<and> findById (userId decoded) s = Some u \<longrightarrow>
      authenticateToken e s req = Inr u \<and> protected e s req handler = handler u)"
proof (intro conjI impI)
  assume "authorization req = None \<or> falsy (header_token (authorization req))"
  then have none: "falsy (header_token (authorization req))"
    by (auto simp: header_token_def falsy_def)
  then show "authenticateToken e s req
      = Inl (Response 401 (error_body ''Access token required''))"
    by (simp add: authenticateToken_def)
  then show "protected e s req handler
      = (Response 401 (error_body ''Access token required''), s)"
    by (simp add: protected_def)
next
  assume a: "header_token (authorization req) = Some t \<and> t \<noteq> []
        \<and> (jws_decode e t = None
            \<or> (\<exists>j. jws_decode e t = Some j
                 \<and> (signed_with j \<noteq> secret e \<or> (\<exists>x. expires j = Some x \<and> x \<le> now e)))
            \<or> (\<exists>err. jwt_verify e t = Inl err))"
  then have "\<exists>err. jwt_verify e t = Inl err"
    by (auto simp: jwt_verify_def jwt_check_def)
  with a show "authenticateToken e s req
      = Inl (Response 403 (error_body ''Invalid or expired token''))"
    by (auto simp: authenticateToken_def falsy_def text_of_def)
  then show "protected e s req handler
      = (Response 403 (error_body ''Invalid or expired token''), s)"
    by (simp add: protected_def)
next
  assume a: "header_token (authorization req) = Some t \<and> t \<noteq> [] \<and> jwt_verify e t = Inr decoded
        \<and> findById (userId decoded) s = None"
  then show "authenticateToken e s req = Inl (Response 403 (error_body ''User not found''))"
    by (simp add: authenticateToken_def falsy_def text_of_def)
  then show "protected e s req handler = (Response 403 (error_body ''User not found''), s)"
    by (simp add: protected_def)
next
  assume a: "header_token (authorization req) = Some t \<and> t \<noteq> [] \<and> jwt_verify e t = Inr decoded
        \<and> findById (userId decoded) s = Some u"
  then show "authenticateToken e s req = Inr u"
    by (simp add: authenticateToken_def falsy_def text_of_def)
  then show "protected e s req handler = handler u"
    by (simp add: protected_def)
qed

theorem auth_gate_four_cases_witness:
  "authenticateToken example_env [alice] (request_with ''GET'' ''/api/verify'' None empty_body)
     = Inl (Response 401 (error_body ''Access token required''))
   \<and> authenticateToken example_env [alice]
       (request_with ''GET'' ''/api/verify'' (Some ''Bearer garbage'') empty_body)
     = Inl (Response 403 (error_body ''Invalid or expired token''))
   \<and> authenticateToken example_env []
       (request_with ''GET'' ''/api/verify'' (Some ''Bearer tok'') empty_body)
     = Inl (Response 403 (error_body ''User not found''))
   \<and> authenticateToken example_env [alice]
       (request_with ''GET'' ''/api/verify'' (Some ''Bearer tok'') empty_body)
     = Inr alice"
  using
    auth_gate_four_cases [where req = "request_with ''GET'' ''/api/verify'' None empty_body"
      and e = example_env and s = "[alice]"]
    auth_gate_four_cases [where
      req = "request_with ''GET'' ''/api/verify'' (Some ''Bearer garbage'') empty_body"
      and t = "''garbage''" and e = example_env and s = "[alice]"]
    auth_gate_four_cases [where
      req = "request_with ''GET'' ''/api/verify'' (Some ''Bearer tok'') empty_body"
      and t = "''tok''" and e = example_env
      and decoded = "jwt_sign 0 ''your-secret-key'' 1000" and s = "[]"]
    auth_gate_four_cases [where
      req = "request_with ''GET'' ''/api/verify'' (Some ''Bearer tok'') empty_body"
      and t = "''tok''" and e = example_env
      and decoded = "jwt_sign 0 ''your-secret-key'' 1000" and s = "[alice]" and u = alice]
  by (simp add: request_with_def findById_def jwt_sign_def alice_def)

text \<open>
  Claim C10. The middleware does not look at the scheme of the header: the token is the
  second segment of the header split at spaces. A header \<open>w t\<close> whose first word \<open>w\<close> has
  no space is treated as \<^verbatim>\<open>Bearer t\<close> is, whatever \<open>w\<close> is; in particular a valid token
  \<open>t\<close> is admitted behind any such word. A header without a space is rejected with
  status 401, as a missing token is.
\<close>

theorem scheme_not_checked:
  "(CHR '' '' \<notin> set w \<longrightarrow>
      authenticateToken e s (req\<lparr>authorization := Some (w @ '' '' @ t)\<rparr>)
      = authenticateToken e s (req\<lparr>authorization := Some (''Bearer '' @ t)\<rparr>))
   \<and> (CHR '' '' \<notin> set w \<and> CHR '' '' \<notin> set t \<and> t \<noteq> [] \<and> jwt_verify e t = Inr decoded
        \<and> findById (userId decoded) s = Some u \<longrightarrow>
      authenticateToken e s (req\<lparr>authorization := Some (w @ '' '' @ t)\<rparr>) = Inr u)
   \<and> (CHR '' '' \<notin> set h \<longrightarrow>
      authenticateToken e s (req\<lparr>authorization := Some h\<rparr>)
      = Inl (Response 401 (error_body ''Access token required'')))"
proof (intro conjI impI)
  assume w: "CHR '' '' \<notin> set w"
  have b: "CHR '' '' \<notin> set ''Bearer''" by simp
  have "header_token (Some (w @ '' '' @ t)) = header_token (Some (''Bearer'' @ '' '' @ t))"
    using header_token_scheme [OF w] header_token_scheme [OF b] by simp
  then show "authenticateToken e s (req\<lparr>authorization := Some (w @ '' '' @ t)\<rparr>)
      = authenticateToken e s (req\<lparr>authorization := Some (''Bearer '' @ t)\<rparr>)"
    by (simp add: authenticateToken_def)
next
  assume a: "CHR '' '' \<notin> set w \<and> CHR '' '' \<notin> set t \<and> t \<noteq> [] \<and> jwt_verify e t = Inr decoded
        \<and> findById (userId decoded) s = Some u"
  then have "header_token (Some (w @ '' '' @ t)) = Some t"
    using header_token_scheme [of w t] split_without_sep [of "CHR '' ''" t] by simp
  with a show "authenticateToken e s (req\<lparr>authorization := Some (w @ '' '' @ t)\<rparr>) = Inr u"
    by (simp add: authenticateToken_def falsy_def text_of_def)
next
  assume "CHR '' '' \<notin> set h"
  then show "authenticateToken e s (req\<lparr>authorization := Some h\<rparr>)
      = Inl (Response 401 (error_body ''Access token required''))"
    using header_token_no_space [of h] by (simp add: authenticateToken_def)
qed

theorem scheme_not_checked_witness:
  "authenticateToken example_env [alice]
      (request_with ''GET'' ''/api/verify'' (Some ''Basic tok'') empty_body)
   = authenticateToken example_env [alice]
      (request_with ''GET'' ''/api/verify'' (Some ''Bearer tok'') empty_body)
   \<and> authenticateToken example_env [alice]
      (request_with ''GET'' ''/api/verify'' (Some ''Basic tok'') empty_body) = Inr alice
   \<and> authenticateToken example_env [alice]
      (request_with ''GET'' ''/api/verify'' (Some ''Bearertok'') empty_body)
     = Inl (Response 401 (error_body ''Access token required''))"
  using
    scheme_not_checked [where w = "''Basic''" and e = example_env and s = "[alice]"
      and req = "request_with ''GET'' ''/api/verify'' None empty_body" and t = "''tok''"
      and decoded = "jwt_sign 0 ''your-secret-key'' 1000" and u = alice
      and h = "''Bearertok''"]
  by (auto simp add: request_with_def findById_def jwt_sign_def alice_def)

subsection \<open>The serialisation of the examples\<close>

lemma digit_of_value:
  assumes "n < 10"
  shows "digit_value (''0123456789'' ! n) = Some n"
proof -
  from assms have "n \<in> {0, 1, 2, 3, 4, 5, 6, 7, 8, 9}"
    by auto
  then show ?thesis
    by (auto simp: digit_value_def)
qed

lemma digit_value_dot: "digit_value c = Some d \<Longrightarrow> c \<noteq> CHR ''.''"
  by (auto simp: digit_value_def)

lemma number_from_snoc:
  "number_from acc (xs @ [c])
   = (case number_from acc xs of
        None \<Rightarrow> None
      | Some m \<Rightarrow> (case digit_value c of None \<Rightarrow> None | Some d \<Rightarrow> Some (10 * m + d)))"
  by (induction xs arbitrary: acc) (simp_all split: option.splits)

lemma number_of_digits: "number_from 0 (digits n) = Some n"
proof (induction n rule: digits.induct)
  case (1 n)
  show ?case
  proof (cases "n < 10")
    case True
    then show ?thesis
      by (subst digits.simps) (simp add: digit_of_value)
  next
    case False
    then have "number_from 0 (digits (n div 10)) = Some (n div 10)"
      by (rule "1.IH")
    moreover have "digit_value (''0123456789'' ! (n mod 10)) = Some (n mod 10)"
      by (rule digit_of_value) simp
    ultimately show ?thesis
      using False by (subst digits.simps) (simp add: number_from_snoc)
  qed
qed

lemma digits_not_Nil: "digits n \<noteq> []"
  by (subst digits.simps) simp

lemma digits_are_digits: "c \<in> set (digits n) \<Longrightarrow> \<exists>d. digit_value c = Some d"
proof (induction n rule: digits.induct)
  case (1 n)
  show ?case
  proof (cases "n < 10")
    case True
    with "1.prems" show ?thesis
      by (subst (asm) digits.simps) (auto simp: digit_of_value)
  next
    case False
    with "1.prems" have "c \<in> set (digits (n div 10)) \<or> c = ''0123456789'' ! (n mod 10)"
      by (subst (asm) digits.simps) auto
    then show ?thesis
    proof
      assume "c \<in> set (digits (n div 10))"
      with False show ?thesis using "1.IH" by blast
    next
      assume "c = ''0123456789'' ! (n mod 10)"
      then show ?thesis
        using digit_of_value [of "n mod 10"] by simp
    qed
  qed
qed

lemma digits_no_dot: "CHR ''.'' \<notin> set (digits n)"
  using digits_are_digits [of "CHR ''.''" n] digit_value_dot by blast

lemma optional_number_digits:
  "optional_number (case v of None \<Rightarrow> [] | Some n \<Rightarrow> digits n) = Some v"
  by (cases v) (simp_all add: optional_number_def digits_not_Nil number_of_digits)

lemma cut_at_first:
  assumes "sep \<notin> set a"
  shows "cut sep (a @ sep # r) = Some (a, r)"
proof -
  have "takeWhile (\<lambda>c. c \<noteq> sep) (a @ sep # r) = a"
    using assms by (induction a) auto
  moreover have "dropWhile (\<lambda>c. c \<noteq> sep) (a @ sep # r) = sep # r"
    using assms by (induction a) auto
  ultimately show ?thesis
    by (simp add: cut_def)
qed

lemma parse_compact_compact: "parse_compact (compact j) = Some j"
proof -
  have a: "CHR ''.'' \<notin> set (case userId j of None \<Rightarrow> [] | Some n \<Rightarrow> digits n)"
    and c: "CHR ''.'' \<notin> set (case expires j of None \<Rightarrow> [] | Some n \<Rightarrow> digits n)"
    by (simp_all add: digits_no_dot split: option.splits)
  have b: "optional_number (digits (iat j)) = Some (Some (iat j))"
    by (simp add: optional_number_def digits_not_Nil number_of_digits)
  show ?thesis
    unfolding parse_compact_def compact_def
    by (simp add: cut_at_first [OF a] cut_at_first [OF digits_no_dot] cut_at_first [OF c]
          optional_number_digits b)
qed


lemma codec_env_fields [simp]:
  "jws_encode codec_env = compact" "jws_decode codec_env = parse_compact"
  "secret codec_env = ''your-secret-key''" "now codec_env = 1000"
  "jws_decode (codec_env\<lparr>now := t\<rparr>) = parse_compact"
  "secret (codec_env\<lparr>now := t\<rparr>) = ''your-secret-key''"
  by (simp_all add: codec_env_def example_env_def secret_def)

subsection \<open>Tokens\<close>

text \<open>
  Claim C3, as the code has it. Let the serialisation of tokens be one that decodes what
  it encodes, and let the key be the same at issuance and at verification. A token that
  the registration or the login route issues to a user at the time \<open>T\<close>, in seconds,
  carries the expiry \<open>T + 604800\<close>, seven days later. Its verification succeeds at
  every time before \<open>T\<close> plus seven days, at \<open>T\<close> plus six days in particular, and
  returns the claims that were signed; it fails with \<open>TokenExpiredError\<close> at \<open>T\<close> plus
  seven days itself and at every later time, at \<open>T\<close> plus eight days in particular.
\<close>

theorem token_lifetime:
  assumes "secret e' = secret e"
    and "\<forall>j. jws_decode e' (jws_encode e j) = Some j"
  shows "(now e' < now e + seven_days \<longrightarrow>
            jwt_verify e' (issue_token e u) = Inr (jwt_sign (oid u) (secret e) (now e)))
       \<and> (now e + seven_days \<le> now e' \<longrightarrow>
            jwt_verify e' (issue_token e u) = Inl TokenExpiredError)
       \<and> (now e' = now e + 6 * 24 * 60 * 60 \<longrightarrow>
            jwt_verify e' (issue_token e u) = Inr (jwt_sign (oid u) (secret e) (now e)))
       \<and> (now e' = now e + 8 * 24 * 60 * 60 \<longrightarrow>
            jwt_verify e' (issue_token e u) = Inl TokenExpiredError)
       \<and> seven_days = 604800"
proof -
  have "jws_decode e' (issue_token e u) = Some (jwt_sign (oid u) (secret e) (now e))"
    using assms(2) by (simp add: issue_token_def)
  with assms(1) show ?thesis
    by (simp add: jwt_verify_def jwt_check_def jwt_sign_def seven_days_def)
qed

theorem token_lifetime_witness:
  "secret (codec_env\<lparr>now := 1000 + 6 * 24 * 60 * 60\<rparr>) = secret codec_env
   \<and> (\<forall>j. jws_decode (codec_env\<lparr>now := 1000 + 6 * 24 * 60 * 60\<rparr>) (jws_encode codec_env j)
            = Some j)
   \<and> jwt_verify (codec_env\<lparr>now := 1000 + 6 * 24 * 60 * 60\<rparr>) (issue_token codec_env alice)
       = Inr (jwt_sign 0 ''your-secret-key'' 1000)
   \<and> jwt_verify (codec_env\<lparr>now := 1000 + 8 * 24 * 60 * 60\<rparr>) (issue_token codec_env alice)
       = Inl TokenExpiredError"
proof -
  have same_secret: "secret (codec_env\<lparr>now := t\<rparr>) = secret codec_env" for t
    by simp
  have round_trip: "\<forall>j. jws_decode (codec_env\<lparr>now := t\<rparr>) (jws_encode codec_env j) = Some j"
    for t
    by (simp add: parse_compact_compact)
  have clock: "now (codec_env\<lparr>now := t\<rparr>) = t" for t
    by simp
  have six: "jwt_verify (codec_env\<lparr>now := 1000 + 6 * 24 * 60 * 60\<rparr>)
        (issue_token codec_env alice) = Inr (jwt_sign (oid alice) (secret codec_env) (now codec_env))"
    using token_lifetime [OF same_secret [of "1000 + 6 * 24 * 60 * 60"]
        round_trip [of "1000 + 6 * 24 * 60 * 60"], where u = alice]
    unfolding clock by simp
  have eight: "jwt_verify (codec_env\<lparr>now := 1000 + 8 * 24 * 60 * 60\<rparr>)
        (issue_token codec_env alice) = Inl TokenExpiredError"
    using token_lifetime [OF same_secret [of "1000 + 8 * 24 * 60 * 60"]
        round_trip [of "1000 + 8 * 24 * 60 * 60"], where u = alice]
    unfolding clock by simp
  have "oid alice = 0"
    by (simp add: alice_def)
  with six eight same_secret round_trip show ?thesis
    by simp
qed

text \<open>At \<open>T\<close> plus seven days exactly, a time up to \<open>T\<close> plus seven days, the token of
  \<open>alice\<close> is refused.\<close>

theorem token_lifetime_counterexample:
  "jwt_verify (codec_env\<lparr>now := 1000 + 7 * 24 * 60 * 60\<rparr>) (issue_token codec_env alice)
     = Inl TokenExpiredError
   \<and> now codec_env = 1000"
  by (simp add: jwt_verify_def jwt_check_def jwt_sign_def seven_days_def issue_token_def
        parse_compact_compact)

subsection \<open>Evaluation of the examples\<close>

lemma trim_example [simp]:
  "trim ''alice'' = ''alice''" "trim ''nobody'' = ''nobody''"
  "trim ''bob'' = ''bob''" "trim ''   '' = []" "trim ''alicia'' = ''alicia''"
  "trim ''12'' = ''12''"
  "trim ''alice@example.com'' = ''alice@example.com''"
  "trim ''Alice@Example.com'' = ''Alice@Example.com''"
  "trim ''bob@example.com'' = ''bob@example.com''"
  by (simp_all add: trim_def is_space_def)

lemma toLowerCase_example [simp]:
  "toLowerCase ''alice'' = ''alice''" "toLowerCase ''nobody'' = ''nobody''"
  "toLowerCase ''bob'' = ''bob''" "toLowerCase ''alicia'' = ''alicia''"
  "toLowerCase ''alice@example.com'' = ''alice@example.com''"
  "toLowerCase ''Alice@Example.com'' = ''alice@example.com''"
  "toLowerCase ''bob@example.com'' = ''bob@example.com''"
  by (simp_all add: toLowerCase_def lower_char_def is_upper_def)

lemma isValidEmail_example [simp]:
  "isValidEmail ''alice@example.com''" "isValidEmail ''Alice@Example.com''"
  "isValidEmail ''bob@example.com''" "\<not> isValidEmail ''alice.example.com''"
  by (simp_all add: isValidEmail_def run_ok_def is_space_def)

lemma decimal_example [simp]: "decimal 12 = ''12''" "decimal 123456 = ''123456''"
  by (simp_all add: decimal_def digits.simps)

lemma example_env_fields [simp]:
  "JWT_SECRET example_env = None" "now example_env = 1000"
  "jws_encode example_env = (\<lambda>j. ''tok'')"
  "bcrypt_hash example_env = (\<lambda>p. ''$s'' @ p)"
  "bcrypt_compare example_env = (\<lambda>p h. drop 2 h = p)"
  "runSettersOnQuery example_env"
  "coerced_less example_env = (\<lambda>v n. Some False)"
  "mongoose_string example_env = (\<lambda>v. None)"
  "mongoose_filter example_env = (\<lambda>name v. None)"
  "cast_books example_env = cast_empty_shelves"
  "\<not> over_limit example_env"
  "static_file example_env = (\<lambda>p. None)"
  by (simp_all add: example_env_def)

lemma register_example:
  "register example_env (\<lambda>c. c) [] (register_body ''alice'' ''alice@example.com'' ''secret1'')
   = (Response 201
        (JObj [(''message'', JStr ''User created successfully''), (''token'', JStr ''tok''),
               (''user'', JObj [(''id'', JNum 0), (''username'', JStr ''alice''),
                               (''email'', JStr ''alice@example.com'')])]), [alice])"
  by (simp add: register_def register_body_def empty_body_def js_not_def value_of_def
        length_of_def less_than_def register_checked_def register_filter_def condition_def
        query_email_def query_username_def cast_string_def
        register_insert_def new_User_def save_def fresh_oid_def issue_token_def
        public_user_def alice_def Let_def)

subsection \<open>Registration\<close>

text \<open>The pattern of \<open>isValidEmail\<close>, and what follows of an email that matches it.\<close>

lemma isValidEmail_shape:
  "isValidEmail em \<longleftrightarrow>
     (\<exists>a b c. em = a @ ''@'' @ b @ ''.'' @ c \<and> run_ok a \<and> run_ok b \<and> run_ok c)"
proof
  assume "isValidEmail em"
  then obtain i j where ij: "i < length em" "Suc i \<le> j" "j < length em"
    and at: "em ! i = CHR ''@''" and dot: "em ! j = CHR ''.''"
    and ok: "run_ok (take i em)" "run_ok (take (j - Suc i) (drop (Suc i) em))"
      "run_ok (drop (Suc j) em)"
    by (auto simp: isValidEmail_def list_ex_iff)
  have "em = take i em @ em ! i # drop (Suc i) em"
    using ij by (simp add: id_take_nth_drop)
  moreover have "drop (Suc i) em
      = take (j - Suc i) (drop (Suc i) em) @ drop (Suc i) em ! (j - Suc i)
          # drop (Suc (j - Suc i)) (drop (Suc i) em)"
    using ij by (intro id_take_nth_drop) simp
  moreover have "drop (Suc i) em ! (j - Suc i) = em ! j"
    using ij by simp
  moreover have "drop (Suc (j - Suc i)) (drop (Suc i) em) = drop (Suc j) em"
    using ij by simp
  ultimately have "em = take i em @ ''@'' @ take (j - Suc i) (drop (Suc i) em) @ ''.''
      @ drop (Suc j) em"
    using at dot by simp
  with ok show "\<exists>a b c. em = a @ ''@'' @ b @ ''.'' @ c \<and> run_ok a \<and> run_ok b \<and> run_ok c"
    by blast
next
  assume "\<exists>a b c. em = a @ ''@'' @ b @ ''.'' @ c \<and> run_ok a \<and> run_ok b \<and> run_ok c"
  then obtain a b c where em: "em = a @ ''@'' @ b @ ''.'' @ c"
    and ok: "run_ok a" "run_ok b" "run_ok c"
    by blast
  let ?i = "length a" and ?j = "Suc (length a + length b)"
  have len: "0 < length a" "0 < length b" "0 < length c"
    using ok by (simp_all add: run_ok_def)
  have "length em = length a + length b + length c + 2"
    by (simp add: em)
  with len have "?i < length em" "Suc ?i \<le> ?j" "?j < length em"
    by arith+
  then have i: "?i \<in> set [0 ..< length em]" and j: "?j \<in> set [Suc ?i ..< length em]"
    by simp_all
  have "em ! ?i = CHR ''@''" "take ?i em = a"
    using em by simp_all
  moreover have "em ! ?j = CHR ''.''"
    using em by (simp add: nth_append)
  moreover have "take (?j - Suc ?i) (drop (Suc ?i) em) = b" "drop (Suc ?j) em = c"
    using em by simp_all
  ultimately have "em ! ?i = CHR ''@'' \<and> em ! ?j = CHR ''.''
       \<and> run_ok (take ?i em)
       \<and> run_ok (take (?j - Suc ?i) (drop (Suc ?i) em))
       \<and> run_ok (drop (Suc ?j) em)"
    using ok by simp
  with i j show "isValidEmail em"
    unfolding isValidEmail_def list_ex_iff by blast
qed

lemma trim_without_space:
  assumes "\<forall>c \<in> set x. \<not> is_space c"
  shows "trim x = x"
proof -
  have "dropWhile is_space y = y" if "\<forall>c \<in> set y. \<not> is_space c" for y
    using that by (cases y) simp_all
  from this [of x] this [of "rev x"] assms show ?thesis
    by (simp add: trim_def)
qed


lemma isValidEmail_trim:
  assumes "isValidEmail em"
  shows "trim em = em" and "em \<noteq> []"
proof -
  from assms [unfolded isValidEmail_shape]
  obtain a b c where em: "em = a @ ''@'' @ b @ ''.'' @ c"
    and ok: "run_ok a" "run_ok b" "run_ok c"
    by blast
  have "\<not> is_space CHR ''@''" "\<not> is_space CHR ''.''"
    by (simp_all add: is_space_def)
  moreover have "\<forall>x \<in> set a \<union> set b \<union> set c. \<not> is_space x"
    using ok by (auto simp: run_ok_def list_all_iff)
  ultimately have "\<forall>x \<in> set em. \<not> is_space x"
    by (auto simp: em)
  then show "trim em = em" by (rule trim_without_space)
  show "em \<noteq> []" by (simp add: em)
qed

text \<open>The route on a body whose three fields are strings: the four checks in their
  order, then the query for an existing user, then the insert.\<close>

lemma register_strings:
  assumes "req_body.username b = Some (JStr un)" and "req_body.email b = Some (JStr em)"
    and "req_body.password b = Some (JStr pw)"
  shows "register e others s b =
     (if un = [] \<or> em = [] \<or> pw = []
      then (Response 400 (error_body ''All fields are required''), s)
      else if length un < 3
      then (Response 400 (error_body ''Username must be at least 3 characters''), s)
      else if \<not> isValidEmail em
      then (Response 400 (error_body ''Please enter a valid email address''), s)
      else if length pw < 6
      then (Response 400 (error_body ''Password must be at least 6 characters''), s)
      else register_checked e others s (JStr un) (JStr em) (JStr pw))"
  using assms
  by (simp add: register_def js_not_def value_of_def length_of_def less_than_def Let_def)

lemma register_checked_strings:
  "register_checked e others s (JStr un) (JStr em) (JStr pw) =
     (case find (\<lambda>u. user.email u = query_email e em \<or> user.username u = query_username e un) s
      of
        None \<Rightarrow> register_insert e (others s) (JStr un) (JStr em) (JStr pw)
      | Some existingUser \<Rightarrow>
          if user.email existingUser = em
          then (Response 400 (error_body ''Email already exists''), s)
          else if user.username existingUser = un
          then (Response 400 (error_body ''Username already exists''), s)
          else register_insert e (others s) (JStr un) (JStr em) (JStr pw))"
  by (auto simp add: register_checked_def register_filter_def condition_def is_string_def
        split: option.splits)

lemma register_insert_strings:
  "register_insert e s (JStr un) (JStr em) (JStr pw) =
     (case save s (new_User s un em (bcrypt_hash e pw) empty_books) of
        Inl err \<Rightarrow> (register_catch err, s)
      | Inr s' \<Rightarrow>
          (Response 201
             (JObj [(''message'', JStr ''User created successfully''),
                    (''token'', JStr (issue_token e (new_User s un em (bcrypt_hash e pw) empty_books))),
                    (''user'', public_user (new_User s un em (bcrypt_hash e pw) empty_books))]), s'))"
  by (simp add: register_insert_def cast_string_def Let_def)

lemma passes_validationI:
  assumes "req_body.username b = Some (JStr un)" and "req_body.email b = Some (JStr em)"
    and "req_body.password b = Some (JStr pw)"
    and "3 \<le> length un" and "isValidEmail em" and "6 \<le> length pw"
  shows "passes_validation b"
  using assms by (simp add: passes_validation_def)

lemma register_past_validation:
  assumes "req_body.username b = Some (JStr un)" and "req_body.email b = Some (JStr em)"
    and "req_body.password b = Some (JStr pw)"
    and "3 \<le> length un" and "isValidEmail em" and "6 \<le> length pw"
  shows "register e others s b = register_checked e others s (JStr un) (JStr em) (JStr pw)"
proof -
  have "un \<noteq> []" "pw \<noteq> []" "em \<noteq> []"
    using assms(4,6) isValidEmail_trim(2) [OF assms(5)] by auto
  with assms show ?thesis
    by (simp add: register_strings [OF assms(1-3)])
qed

lemma save_refused:
  assumes "save s u = Inl err"
  shows "err = ValidationError
       \<or> (err = MongoServerError 11000 [''username''] \<and> (\<exists>v \<in> set s. user.username v = user.username u))
       \<or> (err = MongoServerError 11000 [''email''] \<and> (\<exists>v \<in> set s. user.email v = user.email u))"
  using assms by (auto simp: save_def split: if_splits)

lemma save_accepted:
  assumes "save s u = Inr s'"
  shows "s' = s @ [u] \<and> (\<forall>v \<in> set s. user.username v \<noteq> user.username u \<and> user.email v \<noteq> user.email u)"
  using assms by (auto simp: save_def split: if_splits)

lemma save_collision:
  assumes "user.username u \<noteq> []" and "user.email u \<noteq> []" and "6 \<le> length (user.password u)"
    and "\<exists>v \<in> set s. user.username v = user.username u \<or> user.email v = user.email u"
  shows "(\<exists>v \<in> set s. user.username v = user.username u) \<and> save s u = Inl (MongoServerError 11000 [''username''])
       \<or> (\<exists>v \<in> set s. user.email v = user.email u) \<and> save s u = Inl (MongoServerError 11000 [''email''])"
  using assms by (auto simp: save_def)

text \<open>An insert that a unique index refuses is answered with status 400 and the key of
  the index.\<close>

lemma register_insert_collision:
  assumes "trim un \<noteq> []" and "trim em \<noteq> []" and "6 \<le> length (bcrypt_hash e pw)"
    and "\<exists>v \<in> set s. user.username v = trim un \<or> user.email v = toLowerCase (trim em)"
  shows "(\<exists>v \<in> set s. user.username v = trim un)
           \<and> register_insert e s (JStr un) (JStr em) (JStr pw)
               = (Response 400 (error_body ''username already exists''), s)
       \<or> (\<exists>v \<in> set s. user.email v = toLowerCase (trim em))
           \<and> register_insert e s (JStr un) (JStr em) (JStr pw)
               = (Response 400 (error_body ''email already exists''), s)"
proof -
  let ?u = "new_User s un em (bcrypt_hash e pw) empty_books"
  have "user.username ?u \<noteq> []" "user.email ?u \<noteq> []" "6 \<le> length (user.password ?u)"
    "\<exists>v \<in> set s. user.username v = user.username ?u \<or> user.email v = user.email ?u"
    using assms by (simp_all add: new_User_def toLowerCase_def)
  from save_collision [OF this]
  show ?thesis
    by (auto simp: register_insert_strings register_catch_def new_User_def)
qed

text \<open>The record that the query returns decides the message, its email before its
  username.\<close>

lemma register_existing_user:
  assumes "req_body.username b = Some (JStr un)" and "req_body.email b = Some (JStr em)"
    and "req_body.password b = Some (JStr pw)"
    and "3 \<le> length un" and "isValidEmail em" and "6 \<le> length pw"
    and "find (\<lambda>u. user.email u = query_email e em \<or> user.username u = query_username e un) s
           = Some x"
  shows "user.email x = em \<Longrightarrow>
           register e others s b = (Response 400 (error_body ''Email already exists''), s)"
    and "user.email x \<noteq> em \<Longrightarrow> user.username x = un \<Longrightarrow>
           register e others s b = (Response 400 (error_body ''Username already exists''), s)"
  using assms(7)
  by (simp_all add: register_past_validation [OF assms(1-6)] register_checked_strings)

lemma register_eval:
  "register example_env id [alice, bob] (register_body ''alice'' ''bob@example.com'' ''secret1'')
     = (Response 400 (error_body ''Username already exists''), [alice, bob])"
  "register example_env id [alice] (register_body ''alicia'' ''alice@example.com'' ''secret1'')
     = (Response 400 (error_body ''Email already exists''), [alice])"
  "register example_env ((#) alice) [] (register_body ''alicia'' ''alice@example.com'' ''secret1'')
     = (Response 400 (error_body ''email already exists''), [alice])"
  "register example_env id [alice] (register_body ''alicia'' ''Alice@Example.com'' ''secret1'')
     = (Response 400 (error_body ''email already exists''), [alice])"
  "register example_env id [alice] (register_body ''   '' ''Alice@Example.com'' ''secret1'')
     = (Response 500 (error_body ''Server error during registration''), [alice])"
  by (simp_all add: register_strings [where un = un and em = em and pw = pw for un em pw]
        register_checked_strings register_insert_strings
        register_body_def empty_body_def new_User_def save_def fresh_oid_def
        register_catch_def alice_def bob_def query_email_def query_username_def)

text \<open>
  Claim C4 at inputs where it fails. A body whose \<^verbatim>\<open>username\<close> is the number 12 has no
  \<^verbatim>\<open>length\<close>, the comparison \<^verbatim>\<open>username.length < 3\<close> is false, and the route inserts a
  user whose username is the text \<open>12\<close> of two characters, with status 201. A body whose
  \<^verbatim>\<open>password\<close> is the number 12345 passes the fourth check in the same way and ends in
  the \<^verbatim>\<open>catch\<close> block when \<^verbatim>\<open>bcrypt.hash\<close> refuses it: status 500, not status 400 with
  the message of the fourth check.
\<close>

theorem register_number_fields:
  "register example_env id []
      (empty_body\<lparr>req_body.username := Some (JNum 12),
                  req_body.email := Some (JStr ''alice@example.com''),
                  req_body.password := Some (JStr ''secret1'')\<rparr>)
     = (Response 201
          (JObj [(''message'', JStr ''User created successfully''), (''token'', JStr ''tok''),
                 (''user'', JObj [(''id'', JNum 0), (''username'', JStr ''12''),
                                 (''email'', JStr ''alice@example.com'')])]),
        [\<lparr>oid = 0, username = ''12'', email = ''alice@example.com'',
          password = ''$ssecret1'', books = empty_books\<rparr>])
   \<and> length ''12'' < (3 :: nat)
   \<and> register example_env id []
        (empty_body\<lparr>req_body.username := Some (JStr ''alice''),
                    req_body.email := Some (JStr ''alice@example.com''),
                    req_body.password := Some (JNum 12345)\<rparr>)
     = (Response 500 (error_body ''Server error during registration''), [])"
  by (simp add: register_def empty_body_def js_not_def value_of_def
        length_of_def less_than_def register_checked_def register_filter_def condition_def
        query_email_def query_username_def cast_string_def register_thrown_def
        register_insert_def new_User_def save_def fresh_oid_def issue_token_def
        public_user_def Let_def)


text \<open>
  Claim C9 at the input where it fails. With \<open>alice\<close> registered under
  \<open>alice@example.com\<close>, a registration with the email \<open>Alice@Example.com\<close> and a
  username of three spaces passes the four checks of the route; the username is empty
  once trimmed, the validator \<^verbatim>\<open>required\<close> of the schema refuses the document, and the
  response is the one with status 500, not a duplicate error.
\<close>

theorem blank_username_duplicate_email:
  "passes_validation (register_body ''   '' ''Alice@Example.com'' ''secret1'')
   \<and> toLowerCase ''Alice@Example.com'' = user.email alice
   \<and> register example_env id [alice] (register_body ''   '' ''Alice@Example.com'' ''secret1'')
       = (Response 500 (error_body ''Server error during registration''), [alice])"
  using register_eval(5)
  by (simp add: alice_def passes_validation_def register_body_def empty_body_def)

text \<open>What holds of every registration of three strings whose email, lower-cased, is the
  email of a record of the collection: no account is created, and the response is one
  of the four duplicate errors as soon as the trimmed username is not empty and the
  digest has at least 6 characters.\<close>

lemma register_insert_never_duplicates:
  assumes "\<exists>v \<in> set s. user.email v = toLowerCase (trim em)"
  shows "\<exists>err. register_insert e s (JStr un) (JStr em) (JStr pw) = (register_catch err, s)"
  using assms
  by (auto simp: register_insert_strings save_def new_User_def)

lemma register_catch_status: "status (register_catch err) \<noteq> 201"
  by (auto simp: register_catch_def split: store_error.splits list.splits)

lemma case_variant_email_rejected:
  assumes "req_body.username b = Some (JStr un)" and "req_body.email b = Some (JStr em)"
    and "req_body.password b = Some (JStr pw)"
    and "3 \<le> length un" and "isValidEmail em" and "6 \<le> length pw"
    and "\<exists>v \<in> set (others s). user.email v = toLowerCase em"
  shows "status (fst (register e others s b)) \<noteq> 201"
    and "snd (register e others s b) = s \<or> snd (register e others s b) = others s"
    and "trim un \<noteq> [] \<and> 6 \<le> length (bcrypt_hash e pw) \<longrightarrow>
           fst (register e others s b) \<in>
             {Response 400 (error_body ''Email already exists''),
              Response 400 (error_body ''Username already exists''),
              Response 400 (error_body ''username already exists''),
              Response 400 (error_body ''email already exists'')}"
proof -
  note reg = register_past_validation [OF assms(1-6), of e others s]
    register_checked_strings
  have tr: "trim em = em" "trim em \<noteq> []"
    using isValidEmail_trim [OF assms(5)] by simp_all
  obtain err where ins: "register_insert e (others s) (JStr un) (JStr em) (JStr pw)
      = (register_catch err, others s)"
    using register_insert_never_duplicates [of "others s" em e un pw] assms(7) tr by auto
  show "status (fst (register e others s b)) \<noteq> 201"
    using register_catch_status [of err]
    by (simp add: reg ins split: option.splits)
  show "snd (register e others s b) = s \<or> snd (register e others s b) = others s"
    by (simp add: reg ins split: option.splits)
  show "trim un \<noteq> [] \<and> 6 \<le> length (bcrypt_hash e pw) \<longrightarrow>
           fst (register e others s b) \<in>
             {Response 400 (error_body ''Email already exists''),
              Response 400 (error_body ''Username already exists''),
              Response 400 (error_body ''username already exists''),
              Response 400 (error_body ''email already exists'')}"
  proof
    assume a: "trim un \<noteq> [] \<and> 6 \<le> length (bcrypt_hash e pw)"
    have "fst (register_insert e (others s) (JStr un) (JStr em) (JStr pw)) \<in>
             {Response 400 (error_body ''username already exists''),
              Response 400 (error_body ''email already exists'')}"
    proof -
      have "\<exists>v \<in> set (others s). user.username v = trim un \<or> user.email v = toLowerCase (trim em)"
        using assms(7) tr by auto
      from register_insert_collision [of un em e pw "others s", OF _ tr(2) _ this] a
      show ?thesis by auto
    qed
    then show "fst (register e others s b) \<in>
             {Response 400 (error_body ''Email already exists''),
              Response 400 (error_body ''Username already exists''),
              Response 400 (error_body ''username already exists''),
              Response 400 (error_body ''email already exists'')}"
      by (auto simp: reg split: option.splits)
  qed
qed

subsection \<open>Login\<close>

text \<open>The route on a body whose two fields are non-empty strings: the two failures get
  the same response.\<close>

lemma login_strings:
  assumes "usernameOrEmail b = Some (JStr ident)" and "req_body.password b = Some (JStr pw)"
    and "ident \<noteq> []" and "pw \<noteq> []"
  shows "login e s b =
     (case find (\<lambda>u. user.username u = query_username e ident
                      \<or> user.email u = query_email e ident) s of
        None \<Rightarrow> (Response 400 (error_body ''Invalid credentials''), s)
      | Some u \<Rightarrow>
          if \<not> bcrypt_compare e pw (user.password u)
          then (Response 400 (error_body ''Invalid credentials''), s)
          else (Response 200
                  (JObj [(''message'', JStr ''Login successful''),
                         (''token'', JStr (issue_token e u)),
                         (''user'', public_user u)]), s))"
  using assms
  by (simp add: login_def login_filter_def condition_def js_not_def value_of_def Let_def
        split: option.splits)

text \<open>
  Claim C2 at an input where it fails. The collection holds \<open>alice\<close>, and the password
  of the body is the number 123456. With the identifier \<open>alice\<close> the user is found,
  \<^verbatim>\<open>bcrypt.compare\<close> throws on a password that is not a string, and the \<^verbatim>\<open>catch\<close> block
  answers with status 500 and \<open>Server error during login\<close>. With the identifier
  \<open>nobody\<close> no user is found and the response is status 400 with
  \<open>Invalid credentials\<close>. The two responses tell a stored identifier from one that is
  not stored.
\<close>

theorem login_number_password:
  "login example_env [alice]
      (empty_body\<lparr>usernameOrEmail := Some (JStr ''alice''),
                  req_body.password := Some (JNum 123456)\<rparr>)
     = (Response 500 (error_body ''Server error during login''), [alice])
   \<and> login example_env [alice]
        (empty_body\<lparr>usernameOrEmail := Some (JStr ''nobody''),
                    req_body.password := Some (JNum 123456)\<rparr>)
     = (Response 400 (error_body ''Invalid credentials''), [alice])"
  by (simp add: login_def login_filter_def condition_def js_not_def value_of_def Let_def
        empty_body_def query_username_def query_email_def login_thrown_def alice_def)

subsection \<open>The responses and the stored digests\<close>

lemma find_rehash:
  assumes "\<And>u x. P (u\<lparr>user.password := x\<rparr>) = P u"
  shows "find P (rehash f s) = map_option (\<lambda>u. u\<lparr>user.password := f u\<rparr>) (find P s)"
  using assms by (induction s) (simp_all add: rehash_def)

lemma findById_rehash:
  "findById i (rehash f s) = map_option (\<lambda>u. u\<lparr>user.password := f u\<rparr>) (findById i s)"
  by (cases i) (simp_all add: findById_def find_rehash)

lemma without_digests_rehash: "without_digests (rehash f s) = without_digests s"
  by (simp add: without_digests_def rehash_def)

lemma jwt_verify_hash: "jwt_verify (e\<lparr>bcrypt_hash := h\<rparr>) t = jwt_verify e t"
  by (simp add: jwt_verify_def secret_def split: option.splits)

lemma issue_token_hash:
  "issue_token (e\<lparr>bcrypt_hash := h\<rparr>) (u\<lparr>user.password := x\<rparr>) = issue_token e u"
  by (simp add: issue_token_def secret_def)

lemma public_user_digest: "public_user (u\<lparr>user.password := x\<rparr>) = public_user u"
  by (simp add: public_user_def)

lemma authenticateToken_rehash:
  "authenticateToken (e\<lparr>bcrypt_hash := h\<rparr>) (rehash f s) req
   = map_sum (\<lambda>r. r) (\<lambda>u. u\<lparr>user.password := f u\<rparr>) (authenticateToken e s req)"
  by (simp add: authenticateToken_def jwt_verify_hash findById_rehash Let_def
           split: sum.splits option.splits)

lemma protected_rehash:
  assumes "\<And>u. fst (handler' (u\<lparr>user.password := f u\<rparr>)) = fst (handler u)"
    and "\<And>u. without_digests (snd (handler' (u\<lparr>user.password := f u\<rparr>)))
            = without_digests (snd (handler u))"
  shows "fst (protected (e\<lparr>bcrypt_hash := h\<rparr>) (rehash f s) req handler')
           = fst (protected e s req handler)"
    and "without_digests (snd (protected (e\<lparr>bcrypt_hash := h\<rparr>) (rehash f s) req handler'))
           = without_digests (snd (protected e s req handler))"
  using assms
  by (simp_all add: protected_def authenticateToken_rehash without_digests_rehash
        split: sum.splits)

lemma fresh_oid_rehash: "fresh_oid (rehash f s) = fresh_oid s"
  by (induction s) (simp_all add: fresh_oid_def rehash_def)

lemma new_User_rehash:
  "new_User (rehash f s) un em x bs = (new_User s un em y bs)\<lparr>user.password := x\<rparr>"
  by (simp add: new_User_def fresh_oid_rehash)

lemma save_rehash:
  assumes "(length x < 6) = (length (user.password u) < 6)"
  shows "save (rehash f s) (u\<lparr>user.password := x\<rparr>)
         = map_sum (\<lambda>err. err) (\<lambda>s'. rehash f s @ [u\<lparr>user.password := x\<rparr>]) (save s u)"
proof -
  have "(x = [] \<or> length x < 6) = (user.password u = [] \<or> length (user.password u) < 6)"
    using assms by auto
  moreover have "(\<exists>v \<in> set (rehash f s). user.username v = n) = (\<exists>v \<in> set s. user.username v = n)"
      "(\<exists>v \<in> set (rehash f s). user.email v = n) = (\<exists>v \<in> set s. user.email v = n)" for n
    by (auto simp: rehash_def)
  ultimately show ?thesis
    by (simp add: save_def)
qed

lemma save_appends: "save s u = Inr s' \<Longrightarrow> s' = s @ [u]"
  by (simp add: save_def split: if_splits)

lemma without_digests_append:
  "without_digests (rehash f s @ [u\<lparr>user.password := x\<rparr>]) = without_digests (s @ [u])"
  by (simp add: without_digests_def rehash_def)

lemma register_insert_rehash:
  assumes "\<forall>pw. (length (h pw) < 6) = (length (bcrypt_hash e pw) < 6)"
  shows "fst (register_insert (e\<lparr>bcrypt_hash := h\<rparr>) (rehash f s) un em pw)
           = fst (register_insert e s un em pw)"
    and "without_digests (snd (register_insert (e\<lparr>bcrypt_hash := h\<rparr>) (rehash f s) un em pw))
           = without_digests (snd (register_insert e s un em pw))"
proof -
  have cast: "cast_string (e\<lparr>bcrypt_hash := h\<rparr>) v = cast_string e v" for v
    by (simp add: cast_string_def split: json.splits)
  have sv: "save (rehash f s)
        ((new_User s n a (bcrypt_hash e plain) empty_books)\<lparr>user.password := h plain\<rparr>)
      = map_sum (\<lambda>err. err)
          (\<lambda>s'. rehash f s @ [(new_User s n a (bcrypt_hash e plain) empty_books)
                                 \<lparr>user.password := h plain\<rparr>])
          (save s (new_User s n a (bcrypt_hash e plain) empty_books))" for n a plain
  proof -
    let ?u = "new_User s n a (bcrypt_hash e plain) empty_books"
    have "(length (h plain) < 6) = (length (user.password ?u) < 6)"
      using assms by (simp add: new_User_def)
    from save_rehash [OF this] show ?thesis .
  qed
  have both: "fst (register_insert (e\<lparr>bcrypt_hash := h\<rparr>) (rehash f s) un em pw)
           = fst (register_insert e s un em pw)
      \<and> without_digests (snd (register_insert (e\<lparr>bcrypt_hash := h\<rparr>) (rehash f s) un em pw))
           = without_digests (snd (register_insert e s un em pw))"
  proof (cases pw)
    case (JStr plain)
    show ?thesis
    proof (cases "cast_string e un")
      case None
      with JStr show ?thesis
        by (simp add: register_insert_def cast without_digests_rehash)
    next
      case n: (Some name)
      show ?thesis
      proof (cases "cast_string e em")
        case None
        with JStr n show ?thesis
          by (simp add: register_insert_def cast without_digests_rehash)
      next
        case a: (Some address)
        show ?thesis
        proof (cases "save s (new_User s name address (bcrypt_hash e plain) empty_books)")
          case (Inl err)
          with JStr n a show ?thesis
            by (simp add: register_insert_def cast sv without_digests_rehash Let_def
                  new_User_rehash [where y = "bcrypt_hash e plain"])
        next
          case (Inr s')
          then have "s' = s @ [new_User s name address (bcrypt_hash e plain) empty_books]"
            by (rule save_appends)
          with Inr JStr n a show ?thesis
            by (simp add: register_insert_def cast sv issue_token_hash public_user_digest
                  new_User_rehash [where y = "bcrypt_hash e plain"]
                  without_digests_append Let_def)
        qed
      qed
    qed
  qed (simp_all add: register_insert_def without_digests_rehash)
  from both show "fst (register_insert (e\<lparr>bcrypt_hash := h\<rparr>) (rehash f s) un em pw)
           = fst (register_insert e s un em pw)"
    by blast
  from both show
    "without_digests (snd (register_insert (e\<lparr>bcrypt_hash := h\<rparr>) (rehash f s) un em pw))
           = without_digests (snd (register_insert e s un em pw))"
    by blast
qed

lemma condition_hash:
  "condition (e\<lparr>bcrypt_hash := h\<rparr>) name setters v = condition e name setters v"
  by (simp add: condition_def split: json.splits)

lemma query_hash:
  "query_email (e\<lparr>bcrypt_hash := h\<rparr>) = query_email e"
  "query_username (e\<lparr>bcrypt_hash := h\<rparr>) = query_username e"
  by (rule ext, simp add: query_email_def) (rule ext, simp add: query_username_def)

lemma register_filter_digest:
  assumes "register_filter e em un = Some matches"
  shows "matches (u\<lparr>user.password := x\<rparr>) = matches u"
  using assms by (auto simp: register_filter_def split: option.splits)

lemma login_filter_digest:
  assumes "login_filter e ident = Some matches"
  shows "matches (u\<lparr>user.password := x\<rparr>) = matches u"
  using assms by (auto simp: login_filter_def split: option.splits)

lemma register_checked_rehash:
  assumes "\<forall>pw. (length (h pw) < 6) = (length (bcrypt_hash e pw) < 6)"
  shows "fst (register_checked (e\<lparr>bcrypt_hash := h\<rparr>) (\<lambda>c. c) (rehash f s) un em pw)
           = fst (register_checked e (\<lambda>c. c) s un em pw)
       \<and> without_digests
           (snd (register_checked (e\<lparr>bcrypt_hash := h\<rparr>) (\<lambda>c. c) (rehash f s) un em pw))
           = without_digests (snd (register_checked e (\<lambda>c. c) s un em pw))"
proof -
  have flt: "register_filter (e\<lparr>bcrypt_hash := h\<rparr>) em un = register_filter e em un"
    by (simp add: register_filter_def condition_hash query_hash cong: option.case_cong)
  show ?thesis
  proof (cases "register_filter e em un")
    case None
    then show ?thesis
      by (simp add: register_checked_def flt without_digests_rehash)
  next
    case (Some matches)
    have found: "find matches (rehash f s)
        = map_option (\<lambda>u. u\<lparr>user.password := f u\<rparr>) (find matches s)"
      by (rule find_rehash) (rule register_filter_digest [OF Some])
    show ?thesis
    proof (cases "find matches s")
      case None
      with Some found show ?thesis
        by (simp add: register_checked_def flt register_insert_rehash [OF assms])
    next
      case existing: (Some x)
      with Some found show ?thesis
        by (simp add: register_checked_def flt register_insert_rehash [OF assms]
              without_digests_rehash)
    qed
  qed
qed

lemma less_than_hash: "less_than (e\<lparr>bcrypt_hash := h\<rparr>) v n = less_than e v n"
  by (simp add: less_than_def split: option.splits json.splits)

lemma register_rehash:
  assumes "\<forall>pw. (length (h pw) < 6) = (length (bcrypt_hash e pw) < 6)"
  shows "fst (register (e\<lparr>bcrypt_hash := h\<rparr>) (\<lambda>c. c) (rehash f s) b)
           = fst (register e (\<lambda>c. c) s b)"
    and "without_digests (snd (register (e\<lparr>bcrypt_hash := h\<rparr>) (\<lambda>c. c) (rehash f s) b))
           = without_digests (snd (register e (\<lambda>c. c) s b))"
  using register_checked_rehash [OF assms]
  by (simp_all add: register_def less_than_hash without_digests_rehash Let_def
        split: option.splits bool.splits)

lemma login_rehash:
  assumes "\<forall>u \<in> set s. \<forall>pw. bcrypt_compare e pw (f u) = bcrypt_compare e pw (user.password u)"
  shows "fst (login (e\<lparr>bcrypt_hash := h\<rparr>) (rehash f s) b) = fst (login e s b)"
    and "without_digests (snd (login (e\<lparr>bcrypt_hash := h\<rparr>) (rehash f s) b))
           = without_digests (snd (login e s b))"
proof -
  have flt: "login_filter (e\<lparr>bcrypt_hash := h\<rparr>) ident = login_filter e ident" for ident
    by (simp add: login_filter_def condition_hash query_hash cong: option.case_cong)
  have "fst (login (e\<lparr>bcrypt_hash := h\<rparr>) (rehash f s) b) = fst (login e s b)
      \<and> snd (login (e\<lparr>bcrypt_hash := h\<rparr>) (rehash f s) b) = rehash f s
      \<and> snd (login e s b) = s"
  proof (cases "login_filter e (value_of (usernameOrEmail b))")
    case None
    then show ?thesis
      by (simp add: login_def flt Let_def)
  next
    case (Some matches)
    have found: "find matches (rehash f s)
        = map_option (\<lambda>u. u\<lparr>user.password := f u\<rparr>) (find matches s)"
      by (rule find_rehash) (rule login_filter_digest [OF Some])
    show ?thesis
    proof (cases "find matches s")
      case None
      with Some found show ?thesis
        by (simp add: login_def flt Let_def)
    next
      case existing: (Some u)
      then have "u \<in> set s"
        unfolding find_Some_iff by auto
      with assms have "bcrypt_compare e pw (f u) = bcrypt_compare e pw (user.password u)" for pw
        by blast
      with Some found existing show ?thesis
        by (simp add: login_def flt Let_def issue_token_hash public_user_digest
              split: json.splits)
    qed
  qed
  then show "fst (login (e\<lparr>bcrypt_hash := h\<rparr>) (rehash f s) b) = fst (login e s b)"
    and "without_digests (snd (login (e\<lparr>bcrypt_hash := h\<rparr>) (rehash f s) b))
           = without_digests (snd (login e s b))"
    by (simp_all add: without_digests_rehash)
qed

lemma get_books_rehash:
  "fst (get_books (rehash f s) (u\<lparr>user.password := x\<rparr>)) = fst (get_books s u)"
  "without_digests (snd (get_books (rehash f s) (u\<lparr>user.password := x\<rparr>)))
     = without_digests (snd (get_books s u))"
  by (simp_all add: get_books_def findById_rehash without_digests_rehash split: option.splits)

lemma without_digests_update:
  "without_digests (map (\<lambda>v. if oid v = i then v\<lparr>user.books := kept\<rparr> else v) (rehash f s))
   = without_digests (map (\<lambda>v. if oid v = i then v\<lparr>user.books := kept\<rparr> else v) s)"
  by (induction s) (simp_all add: without_digests_def rehash_def)

lemma put_books_rehash:
  "fst (put_books (e\<lparr>bcrypt_hash := h\<rparr>) (rehash f s) b (u\<lparr>user.password := x\<rparr>))
     = fst (put_books e s b u)"
  "without_digests
     (snd (put_books (e\<lparr>bcrypt_hash := h\<rparr>) (rehash f s) b (u\<lparr>user.password := x\<rparr>)))
     = without_digests (snd (put_books e s b u))"
  by (simp_all add: put_books_def findByIdAndUpdate_def without_digests_rehash
        without_digests_update split: option.splits)

lemma verify_rehash:
  "fst (verify (rehash f s) (u\<lparr>user.password := x\<rparr>)) = fst (verify s u)"
  "without_digests (snd (verify (rehash f s) (u\<lparr>user.password := x\<rparr>)))
     = without_digests (snd (verify s u))"
  by (simp_all add: verify_def public_user_def without_digests_rehash)

lemma ai_rehash:
  "fst (ai_summary (e\<lparr>bcrypt_hash := h\<rparr>) (rehash f s) b) = fst (ai_summary e s b)"
  "without_digests (snd (ai_summary (e\<lparr>bcrypt_hash := h\<rparr>) (rehash f s) b))
     = without_digests (snd (ai_summary e s b))"
  "fst (ai_recommendations (e\<lparr>bcrypt_hash := h\<rparr>) (rehash f s) b)
     = fst (ai_recommendations e s b)"
  "without_digests (snd (ai_recommendations (e\<lparr>bcrypt_hash := h\<rparr>) (rehash f s) b))
     = without_digests (snd (ai_recommendations e s b))"
  by (simp_all add: ai_summary_def ai_recommendations_def without_digests_rehash
        split: option.splits summary_outcome.splits recommendations_outcome.splits)

lemma routes_rehash:
  assumes "\<forall>u \<in> set s. \<forall>pw. bcrypt_compare e pw (f u) = bcrypt_compare e pw (user.password u)"
    and "\<forall>pw. (length (h pw) < 6) = (length (bcrypt_hash e pw) < 6)"
  shows "fst (routes (e\<lparr>bcrypt_hash := h\<rparr>) (rehash f s) req b) = fst (routes e s req b)"
    and "without_digests (snd (routes (e\<lparr>bcrypt_hash := h\<rparr>) (rehash f s) req b))
           = without_digests (snd (routes e s req b))"
  unfolding routes_def
  by (simp_all add: register_rehash [OF assms(2)] login_rehash [OF assms(1)] health_def
        ai_rehash without_digests_rehash
        protected_rehash [where handler = "get_books s"] get_books_rehash
        protected_rehash [where handler = "put_books e s b"] put_books_rehash
        protected_rehash [where handler = "verify s"] verify_rehash
        protected_rehash [where handler = "\<lambda>u. ai_summary e s b"]
        protected_rehash [where handler = "\<lambda>u. ai_recommendations e s b"])

lemma app_rehash:
  assumes "\<forall>u \<in> set s. \<forall>pw. bcrypt_compare e pw (f u) = bcrypt_compare e pw (user.password u)"
    and "\<forall>pw. (length (h pw) < 6) = (length (bcrypt_hash e pw) < 6)"
  shows "fst (app (e\<lparr>bcrypt_hash := h\<rparr>) (rehash f s) req) = fst (app e s req)"
    and "without_digests (snd (app (e\<lparr>bcrypt_hash := h\<rparr>) (rehash f s) req))
           = without_digests (snd (app e s req))"
proof -
  have "fst (middleware (e\<lparr>bcrypt_hash := h\<rparr>) (rehash f s) req) = fst (middleware e s req)"
    and "without_digests (snd (middleware (e\<lparr>bcrypt_hash := h\<rparr>) (rehash f s) req))
           = without_digests (snd (middleware e s req))"
    by (simp_all add: middleware_def routes_rehash [OF assms] without_digests_rehash
          split: option.splits)
  then show "fst (app (e\<lparr>bcrypt_hash := h\<rparr>) (rehash f s) req) = fst (app e s req)"
    and "without_digests (snd (app (e\<lparr>bcrypt_hash := h\<rparr>) (rehash f s) req))
           = without_digests (snd (app e s req))"
    by (simp_all add: app_def without_digests_rehash)
qed

subsection \<open>The collection under the requests\<close>

lemma register_catch_not_created: "register_catch err \<noteq> Response 201 p"
  by (auto simp: register_catch_def split: store_error.splits list.splits)

lemma register_insert_created:
  assumes "register_insert e s un em pw = (Response 201 p, s')"
  shows "\<exists>name address plain.
           cast_string e un = Some name \<and> cast_string e em = Some address \<and> pw = JStr plain
           \<and> s' = s @ [new_User s name address (bcrypt_hash e plain) empty_books]
           \<and> p = JObj [(''message'', JStr ''User created successfully''),
                        (''token'', JStr (issue_token e
                           (new_User s name address (bcrypt_hash e plain) empty_books))),
                        (''user'', public_user
                           (new_User s name address (bcrypt_hash e plain) empty_books))]"
proof (cases pw)
  case (JStr plain)
  show ?thesis
  proof (cases "cast_string e un")
    case None
    with JStr assms show ?thesis
      by (simp add: register_insert_def register_catch_not_created)
  next
    case n: (Some name)
    show ?thesis
    proof (cases "cast_string e em")
      case None
      with JStr n assms show ?thesis
        by (simp add: register_insert_def register_catch_not_created)
    next
      case a: (Some address)
      show ?thesis
      proof (cases "save s (new_User s name address (bcrypt_hash e plain) empty_books)")
        case (Inl err)
        with JStr n a assms show ?thesis
          by (simp add: register_insert_def register_catch_not_created Let_def)
      next
        case (Inr s'')
        then have "s'' = s @ [new_User s name address (bcrypt_hash e plain) empty_books]"
          by (rule save_appends)
        with Inr JStr n a assms show ?thesis
          by (auto simp: register_insert_def Let_def)
      qed
    qed
  qed
qed (use assms in \<open>simp_all add: register_insert_def register_thrown_def\<close>)

lemma register_checked_created:
  assumes "register_checked e others s un em pw = (Response 201 p, s')"
  shows "register_insert e (others s) un em pw = (Response 201 p, s')"
  using assms
  by (simp add: register_checked_def register_thrown_def split: option.splits if_splits)

lemma register_created:
  assumes "register e others s b = (Response 201 p, s')"
  shows "\<exists>name address plain.
           cast_string e (value_of (req_body.username b)) = Some name
           \<and> cast_string e (value_of (req_body.email b)) = Some address
           \<and> req_body.password b = Some (JStr plain)
           \<and> s' = others s @ [new_User (others s) name address (bcrypt_hash e plain) empty_books]
           \<and> p = JObj [(''message'', JStr ''User created successfully''),
                        (''token'', JStr (issue_token e
                           (new_User (others s) name address (bcrypt_hash e plain) empty_books))),
                        (''user'', public_user
                           (new_User (others s) name address (bcrypt_hash e plain) empty_books))]"
proof -
  from assms have present: "\<not> js_not (req_body.password b)"
    and "register_checked e others s (value_of (req_body.username b))
      (value_of (req_body.email b)) (value_of (req_body.password b)) = (Response 201 p, s')"
    by (simp_all add: register_def register_thrown_def Let_def
          split: if_splits option.splits bool.splits)
  from register_insert_created [OF register_checked_created [OF this(2)]] present
  show ?thesis
    by (cases "req_body.password b") (auto simp: value_of_def js_not_def)
qed

lemma login_succeeded:
  assumes "login e s b = (Response 200 p, s')"
  shows "\<exists>u \<in> set s. p = JObj [(''message'', JStr ''Login successful''),
           (''token'', JStr (issue_token e u)), (''user'', public_user u)]"
proof (cases "login_filter e (value_of (usernameOrEmail b))")
  case None
  with assms show ?thesis
    by (simp add: login_def login_thrown_def Let_def split: if_splits)
next
  case (Some matches)
  show ?thesis
  proof (cases "find matches s")
    case None
    with Some assms show ?thesis
      by (simp add: login_def Let_def split: if_splits)
  next
    case found: (Some u)
    then have "u \<in> set s"
      unfolding find_Some_iff by auto
    with Some found assms show ?thesis
      by (auto simp: login_def login_thrown_def Let_def split: if_splits json.splits)
  qed
qed

lemma authenticated_found:
  assumes "authenticateToken e s req = Inr u"
  shows "findById (Some (oid u)) s = Some u" and "u \<in> set s"
proof -
  from assms have "\<exists>d :: jwt. findById (userId d) s = Some u"
    by (auto simp: authenticateToken_def Let_def split: if_splits sum.splits option.splits)
  then obtain d :: jwt where "findById (userId d) s = Some u" ..
  then obtain n where n: "userId d = Some n" "find (\<lambda>v. oid v = n) s = Some u"
    by (cases "userId d") (simp_all add: findById_def)
  from n(2) have "oid u = n" and in_s: "u \<in> set s"
    unfolding find_Some_iff by auto
  with n(2) show "findById (Some (oid u)) s = Some u"
    by (simp add: findById_def)
  from in_s show "u \<in> set s" .
qed

lemma protected_succeeded:
  assumes "protected e s req handler = (Response 200 p, s')"
  shows "\<exists>u \<in> set s. authenticateToken e s req = Inr u \<and> handler u = (Response 200 p, s')"
proof (cases "authenticateToken e s req")
  case (Inl rejection)
  then have "rejection \<in> {Response 401 (error_body ''Access token required''),
      Response 403 (error_body ''Invalid or expired token''),
      Response 403 (error_body ''User not found'')}"
    by (auto simp: authenticateToken_def Let_def split: if_splits sum.splits option.splits)
  with Inl assms show ?thesis
    by (auto simp: protected_def)
next
  case (Inr u)
  with assms authenticated_found(2) [OF Inr] show ?thesis
    by (auto simp: protected_def)
qed

lemma get_books_succeeded:
  assumes "get_books s u = (Response 200 p, s')"
  shows "\<exists>v \<in> set s. oid v = oid u \<and> p = hydrate_books (user.books v)"
proof (cases "find (\<lambda>v. oid v = oid u) s")
  case None
  with assms show ?thesis by (simp add: get_books_def findById_def)
next
  case (Some v)
  then have "v \<in> set s" "oid v = oid u" unfolding find_Some_iff by auto
  with Some assms show ?thesis by (auto simp: get_books_def findById_def)
qed

lemma has_shelves_empty_books: "has_shelves empty_books"
  by (simp add: has_shelves_def empty_books_def is_array_def)

lemma register_insert_store:
  "snd (register_insert e s un em pw) = s
   \<or> (\<exists>u. snd (register_insert e s un em pw) = s @ [u] \<and> user.books u = empty_books)"
proof (cases "register_insert e s un em pw")
  case (Pair r s')
  show ?thesis
  proof (cases "\<exists>p. r = Response 201 p")
    case True
    then obtain p where "r = Response 201 p" ..
    with Pair register_insert_created [of e s un em pw p s'] show ?thesis
      by (auto simp: new_User_def)
  next
    case False
    with Pair have "s' = s"
      by (auto simp: register_insert_def Let_def
            split: json.splits option.splits sum.splits)
    with Pair show ?thesis by simp
  qed
qed

lemma register_store:
  "snd (register e (\<lambda>c. c) s b) = s
   \<or> (\<exists>u. snd (register e (\<lambda>c. c) s b) = s @ [u] \<and> user.books u = empty_books)"
proof -
  have "snd (register e (\<lambda>c. c) s b) = s
      \<or> snd (register e (\<lambda>c. c) s b)
          = snd (register_insert e s (value_of (req_body.username b))
              (value_of (req_body.email b)) (value_of (req_body.password b)))"
    by (simp add: register_def register_checked_def Let_def
          split: option.splits bool.splits)
  with register_insert_store [of e s "value_of (req_body.username b)"
      "value_of (req_body.email b)" "value_of (req_body.password b)"]
  show ?thesis by auto
qed

lemma protected_store:
  assumes "\<And>u. snd (handler u) = s"
  shows "snd (protected e s req handler) = s"
  using assms by (simp add: protected_def split: sum.splits)

lemma unchanged_store:
  "snd (login e s b) = s" "snd (get_books s u) = s" "snd (verify s u) = s"
  "snd (health e s) = s" "snd (ai_summary e s b) = s" "snd (ai_recommendations e s b) = s"
  by (simp_all add: login_def get_books_def verify_def health_def ai_summary_def
        ai_recommendations_def Let_def
        split: option.splits json.splits summary_outcome.splits recommendations_outcome.splits)

lemma put_books_store:
  "snd (put_books e s b u) = s
   \<or> (\<exists>bs kept. req_body.books b = Some bs \<and> is_object (Some bs)
         \<and> cast_books e bs = Some kept
         \<and> snd (put_books e s b u)
             = map (\<lambda>v. if oid v = oid u then v\<lparr>user.books := kept\<rparr> else v) s)"
  by (simp add: put_books_def findByIdAndUpdate_def split: option.splits)

lemma routes_store:
  "snd (routes e s req b) = s
   \<or> (\<exists>u. method req = ''POST'' \<and> route ''/api/register'' (path req)
         \<and> snd (routes e s req b) = s @ [u] \<and> user.books u = empty_books)
   \<or> (\<exists>u bs kept. method req = ''PUT'' \<and> route ''/api/books'' (path req)
         \<and> authenticateToken e s req = Inr u
         \<and> req_body.books b = Some bs \<and> is_object (Some bs) \<and> cast_books e bs = Some kept
         \<and> snd (routes e s req b)
             = map (\<lambda>v. if oid v = oid u then v\<lparr>user.books := kept\<rparr> else v) s)"
proof -
  consider (reg) "method req = ''POST'' \<and> route ''/api/register'' (path req)"
    | (put) "method req = ''PUT'' \<and> route ''/api/books'' (path req)"
    | (other) "\<not> (method req = ''POST'' \<and> route ''/api/register'' (path req))"
        "\<not> (method req = ''PUT'' \<and> route ''/api/books'' (path req))"
    by blast
  then show ?thesis
  proof cases
    case reg
    then show ?thesis
      using register_store [of e s b] by (auto simp: routes_def)
  next
    case put
    then have "routes e s req b = protected e s req (put_books e s b)"
      by (simp add: routes_def reading_def)
    then show ?thesis
      using put put_books_store [of e s b]
      by (auto simp: protected_def split: sum.splits)
  next
    case other
    then have "snd (routes e s req b) = s"
      by (auto simp: routes_def unchanged_store protected_store)
    then show ?thesis by simp
  qed
qed

lemma app_store:
  "snd (app e s req) = s
   \<or> (\<exists>u. method req = ''POST'' \<and> route ''/api/register'' (path req)
         \<and> snd (app e s req) = s @ [u] \<and> user.books u = empty_books)
   \<or> (\<exists>u b bs kept. method req = ''PUT'' \<and> route ''/api/books'' (path req)
         \<and> authenticateToken e s req = Inr u \<and> body req = Some b
         \<and> req_body.books b = Some bs \<and> is_object (Some bs) \<and> cast_books e bs = Some kept
         \<and> snd (app e s req)
             = map (\<lambda>v. if oid v = oid u then v\<lparr>user.books := kept\<rparr> else v) s)"
proof (cases "body req")
  case None
  then show ?thesis
    by (simp add: app_def middleware_def)
next
  case (Some b)
  then have "snd (app e s req) = s \<or> snd (app e s req) = snd (routes e s req b)"
    by (simp add: app_def middleware_def split: option.splits)
  with routes_store [of e s req b] Some show ?thesis
    by auto
qed

lemma shelves_kept_update:
  assumes "shelves_kept s" and "has_shelves kept"
  shows "shelves_kept (map (\<lambda>v. if oid v = i then v\<lparr>user.books := kept\<rparr> else v) s)"
  using assms by (auto simp: shelves_kept_def list_all_iff)

lemma app_shelves_kept:
  assumes "shelves_kept s" and "sends_shelves e req"
  shows "shelves_kept (snd (app e s req))"
proof -
  from app_store [of e s req] show ?thesis
  proof (elim disjE exE conjE)
    assume "snd (app e s req) = s"
    with assms show ?thesis by simp
  next
    fix u assume "snd (app e s req) = s @ [u]" "user.books u = empty_books"
    with assms show ?thesis
      by (simp add: shelves_kept_def has_shelves_empty_books)
  next
    fix u b bs kept
    assume "method req = ''PUT''" "route ''/api/books'' (path req)" "body req = Some b"
      "req_body.books b = Some bs" "is_object (Some bs)" "cast_books e bs = Some kept"
      and st: "snd (app e s req)
          = map (\<lambda>v. if oid v = oid u then v\<lparr>user.books := kept\<rparr> else v) s"
    with assms(2) have "has_shelves kept"
      by (simp add: sends_shelves_def)
    with assms(1) st show ?thesis
      by (simp add: shelves_kept_update)
  qed
qed

lemma serve_shelves_kept:
  assumes "shelves_kept s" and "\<forall>(e, req) \<in> set reqs. sends_shelves e req"
  shows "shelves_kept (serve s reqs)"
  using assms
proof (induction reqs arbitrary: s)
  case Nil
  then show ?case by simp
next
  case (Cons r reqs)
  obtain e req where r: "r = (e, req)" by (cases r)
  with Cons.prems have "shelves_kept (snd (app e s req))"
    by (simp add: app_shelves_kept)
  with Cons r show ?case by simp
qed



subsection \<open>The examples through the application\<close>

lemma route_example [simp]:
  "route ''/api/register'' ''/api/register''" "route ''/api/login'' ''/api/login''"
  "route ''/api/books'' ''/api/books''" "route ''/api/books'' ''/API/BOOKS/''"
  "\<not> route ''/api/register'' ''/api/login''"
  by (simp_all add: route_def toLowerCase_def lower_char_def is_upper_def)

lemma gate_example:
  "authenticateToken example_env [alice\<lparr>user.books := b\<rparr>]
      \<lparr>method = m, path = p, authorization = Some ''Bearer tok'', body = bd\<rparr>
     = Inr (alice\<lparr>user.books := b\<rparr>)"
  by (simp add: authenticateToken_def falsy_def text_of_def findById_def jwt_sign_def
        alice_def)

lemma app_routes:
  assumes "\<not> over_limit e"
  shows
  "app e s \<lparr>method = ''POST'', path = ''/api/register'', authorization = h, body = Some b\<rparr>
     = register e (\<lambda>c. c) s b"
  "app e s \<lparr>method = ''POST'', path = ''/api/login'', authorization = h, body = Some b\<rparr>
     = login e s b"
  "static_file e ''/api/books'' = None \<Longrightarrow>
   app e s \<lparr>method = ''GET'', path = ''/api/books'', authorization = h, body = Some b\<rparr>
     = protected e s
         \<lparr>method = ''GET'', path = ''/api/books'', authorization = h, body = Some b\<rparr>
         (get_books s)"
  "app e s \<lparr>method = ''PUT'', path = p, authorization = h, body = Some b\<rparr>
     = (if route ''/api/books'' p
        then protected e s \<lparr>method = ''PUT'', path = p, authorization = h, body = Some b\<rparr>
               (put_books e s b)
        else if take 5 (toLowerCase p) = ''/api/''
        then (Response 404 (error_body ''API endpoint not found''), s)
        else (NoRoute, s))"
  using assms by (simp_all add: app_def middleware_def routes_def reading_def)

lemma app_register_example:
  "app example_env []
     (request_with ''POST'' ''/api/register'' None
        (register_body ''alice'' ''alice@example.com'' ''secret1''))
   = (Response 201
        (JObj [(''message'', JStr ''User created successfully''), (''token'', JStr ''tok''),
               (''user'', JObj [(''id'', JNum 0), (''username'', JStr ''alice''),
                               (''email'', JStr ''alice@example.com'')])]), [alice])"
  by (simp add: request_with_def app_routes register_example)

lemma cast_example:
  "cast_empty_shelves (JObj [(''read'', JArr []), (''unread'', JArr []), (''wishlist'', JArr [])])
     = Some empty_books"
  "cast_empty_shelves (JObj [(''wishlist'', JArr [])]) = Some (JObj [(''wishlist'', JArr [])])"
  "cast_empty_shelves (JObj [(''wishlist'', JArr [JStr ''Dune''])]) = None"
  by (simp_all add: cast_empty_shelves_def empty_books_def)

lemma app_put_example:
  assumes "cast_empty_shelves (JObj members) = Some kept"
  shows "app example_env [alice\<lparr>user.books := bs\<rparr>]
     \<lparr>method = ''PUT'', path = ''/api/books'', authorization = Some ''Bearer tok'',
        body = Some (books_body (JObj members))\<rparr>
   = (Response 200 (JObj [(''message'', JStr ''Books updated successfully'')]),
      [alice\<lparr>user.books := kept\<rparr>])"
  using assms
  by (simp add: app_routes protected_def gate_example put_books_def books_body_def
        empty_body_def is_object_def findByIdAndUpdate_def)


lemma app_login_example:
  "app example_env [alice]
     (request_with ''POST'' ''/api/login'' None (login_body ''alice'' ''secret1''))
   = (Response 200
        (JObj [(''message'', JStr ''Login successful''), (''token'', JStr ''tok''),
               (''user'', JObj [(''id'', JNum 0), (''username'', JStr ''alice''),
                               (''email'', JStr ''alice@example.com'')])]), [alice])"
  by (simp add: request_with_def app_routes login_strings [where ident = "''alice''"
          and pw = "''secret1''"] login_body_def empty_body_def
        query_username_def query_email_def issue_token_def public_user_def alice_def)

lemma alice_books: "alice\<lparr>user.books := empty_books\<rparr> = alice"
  by (simp add: alice_def)

subsection \<open>The three sequences of \<^verbatim>\<open>books\<close>\<close>

text \<open>
  Claim C6, as the routes have it. A registration that succeeds adds one record, whose
  \<^verbatim>\<open>books\<close> are the three empty sequences \<^verbatim>\<open>read\<close>, \<^verbatim>\<open>unread\<close> and \<^verbatim>\<open>wishlist\<close>. A
  request that is not a \<^verbatim>\<open>PUT\<close> on the route \<^verbatim>\<open>/api/books\<close> leaves every record as it
  is. An admitted \<^verbatim>\<open>PUT\<close> on that route, whatever the case of the letters of its path,
  with an object or an array that the cast against the schema accepts, replaces the
  \<^verbatim>\<open>books\<close> of the requester by the cast value, whatever its shape. So the records
  keep exactly the three sequences under a request, and under any sequence of requests
  from the empty collection on, as long as the cast value of each such replacement has
  exactly the three sequences.
\<close>

theorem shelves_invariant:
  "(register e others s b = (Response 201 p, s') \<longrightarrow>
      (\<exists>u. s' = others s @ [u] \<and> user.books u = empty_books \<and> has_shelves (user.books u)))
   \<and> (\<not> (method req = ''PUT'' \<and> route ''/api/books'' (path req)) \<longrightarrow>
      snd (app e s req) = s
      \<or> (\<exists>u. snd (app e s req) = s @ [u] \<and> user.books u = empty_books))
   \<and> (method req = ''PUT'' \<and> route ''/api/books'' (path req) \<and> body req = Some b'
        \<and> \<not> over_limit e \<and> authenticateToken e s req = Inr u
        \<and> req_body.books b' = Some bs \<and> is_object (Some bs)
        \<and> cast_books e bs = Some kept \<longrightarrow>
      snd (app e s req) = map (\<lambda>v. if oid v = oid u then v\<lparr>user.books := kept\<rparr> else v) s)
   \<and> (shelves_kept s \<and> sends_shelves e req \<longrightarrow> shelves_kept (snd (app e s req)))
   \<and> ((\<forall>(e, req) \<in> set reqs. sends_shelves e req) \<longrightarrow> shelves_kept (serve [] reqs))"
proof (intro conjI impI)
  assume "register e others s b = (Response 201 p, s')"
  from register_created [OF this]
  show "\<exists>u. s' = others s @ [u] \<and> user.books u = empty_books \<and> has_shelves (user.books u)"
    by (auto simp: has_shelves_empty_books new_User_def)
next
  assume "\<not> (method req = ''PUT'' \<and> route ''/api/books'' (path req))"
  with app_store [of e s req]
  show "snd (app e s req) = s
      \<or> (\<exists>u. snd (app e s req) = s @ [u] \<and> user.books u = empty_books)"
    by auto
next
  assume "method req = ''PUT'' \<and> route ''/api/books'' (path req) \<and> body req = Some b'
        \<and> \<not> over_limit e \<and> authenticateToken e s req = Inr u
        \<and> req_body.books b' = Some bs \<and> is_object (Some bs)
        \<and> cast_books e bs = Some kept"
  then show "snd (app e s req)
      = map (\<lambda>v. if oid v = oid u then v\<lparr>user.books := kept\<rparr> else v) s"
    by (simp add: app_def middleware_def routes_def reading_def protected_def put_books_def
          findByIdAndUpdate_def)
next
  assume "shelves_kept s \<and> sends_shelves e req"
  then show "shelves_kept (snd (app e s req))"
    by (simp add: app_shelves_kept)
next
  assume "\<forall>(e, req) \<in> set reqs. sends_shelves e req"
  then show "shelves_kept (serve [] reqs)"
    by (intro serve_shelves_kept) (simp_all add: shelves_kept_def)
qed

theorem shelves_invariant_witness:
  "sends_shelves example_env (request_with ''POST'' ''/api/register'' None
      (register_body ''alice'' ''alice@example.com'' ''secret1''))
   \<and> sends_shelves example_env (request_with ''PUT'' ''/api/books'' (Some ''Bearer tok'')
      (books_body (JObj [(''read'', JArr []), (''unread'', JArr []), (''wishlist'', JArr [])])))
   \<and> shelves_kept (serve []
        [(example_env, request_with ''POST'' ''/api/register'' None
            (register_body ''alice'' ''alice@example.com'' ''secret1'')),
         (example_env, request_with ''PUT'' ''/api/books'' (Some ''Bearer tok'')
            (books_body (JObj [(''read'', JArr []), (''unread'', JArr []),
                               (''wishlist'', JArr [])])))])
   \<and> serve []
        [(example_env, request_with ''POST'' ''/api/register'' None
            (register_body ''alice'' ''alice@example.com'' ''secret1'')),
         (example_env, request_with ''PUT'' ''/api/books'' (Some ''Bearer tok'')
            (books_body (JObj [(''read'', JArr []), (''unread'', JArr []),
                               (''wishlist'', JArr [])])))]
       = [alice]"
proof -
  let ?C = "JObj [(''read'', JArr []), (''unread'', JArr []), (''wishlist'', JArr [])]"
  let ?reg = "request_with ''POST'' ''/api/register'' None
      (register_body ''alice'' ''alice@example.com'' ''secret1'')"
  let ?put = "request_with ''PUT'' ''/api/books'' (Some ''Bearer tok'') (books_body ?C)"
  have sends: "sends_shelves example_env ?reg" "sends_shelves example_env ?put"
    by (simp_all add: sends_shelves_def request_with_def books_body_def empty_body_def
          is_object_def cast_example has_shelves_empty_books)
  then have kept: "shelves_kept (serve [] [(example_env, ?reg), (example_env, ?put)])"
    using shelves_invariant [where reqs = "[(example_env, ?reg), (example_env, ?put)]"]
    by simp
  have "app example_env [alice] ?put
      = (Response 200 (JObj [(''message'', JStr ''Books updated successfully'')]), [alice])"
    using app_put_example [OF cast_example(1), where bs = empty_books]
    by (simp add: alice_books request_with_def)
  then have "serve [] [(example_env, ?reg), (example_env, ?put)] = [alice]"
    by (simp add: app_register_example)
  with sends kept show ?thesis
    by simp
qed

text \<open>After the registration of \<open>alice\<close>, a \<^verbatim>\<open>PUT /api/books\<close> with the object that has
  the one sequence \<^verbatim>\<open>wishlist\<close> is answered with status 200 and leaves her record
  without \<^verbatim>\<open>read\<close> and \<^verbatim>\<open>unread\<close>.\<close>

theorem shelves_invariant_counterexample:
  "shelves_kept (serve []
      [(example_env, request_with ''POST'' ''/api/register'' None
          (register_body ''alice'' ''alice@example.com'' ''secret1''))])
   \<and> fst (app example_env [alice]
        (request_with ''PUT'' ''/api/books'' (Some ''Bearer tok'')
           (books_body (JObj [(''wishlist'', JArr [])]))))
      = Response 200 (JObj [(''message'', JStr ''Books updated successfully'')])
   \<and> \<not> shelves_kept (serve []
      [(example_env, request_with ''POST'' ''/api/register'' None
          (register_body ''alice'' ''alice@example.com'' ''secret1'')),
       (example_env, request_with ''PUT'' ''/api/books'' (Some ''Bearer tok'')
          (books_body (JObj [(''wishlist'', JArr [])])))])"
proof -
  let ?reg = "request_with ''POST'' ''/api/register'' None
      (register_body ''alice'' ''alice@example.com'' ''secret1'')"
  let ?put = "request_with ''PUT'' ''/api/books'' (Some ''Bearer tok'')
      (books_body (JObj [(''wishlist'', JArr [])]))"
  have put: "app example_env [alice] ?put
      = (Response 200 (JObj [(''message'', JStr ''Books updated successfully'')]),
         [alice\<lparr>user.books := JObj [(''wishlist'', JArr [])]\<rparr>])"
    using app_put_example [OF cast_example(2), where bs = empty_books]
    by (simp add: alice_books request_with_def)
  have "serve [] [(example_env, ?reg)] = [alice]"
    by (simp add: app_register_example)
  moreover have "serve [] [(example_env, ?reg), (example_env, ?put)]
      = [alice\<lparr>user.books := JObj [(''wishlist'', JArr [])]\<rparr>]"
    by (simp add: app_register_example put)
  moreover have "shelves_kept [alice]"
    by (simp add: shelves_kept_def alice_def has_shelves_empty_books)
  moreover have "\<not> shelves_kept [alice\<lparr>user.books := JObj [(''wishlist'', JArr [])]\<rparr>]"
    by (simp add: shelves_kept_def has_shelves_def)
  ultimately show ?thesis
    by (simp add: put)
qed

subsection \<open>The digests and the responses\<close>

text \<open>
  Claim C7. No response depends on a digest, stored or fresh, otherwise than through the
  verdict of \<^verbatim>\<open>bcrypt.compare\<close> and through the validator of the schema, which refuses
  a digest of fewer than 6 characters: replace every stored digest by one with the same
  verdicts, and \<^verbatim>\<open>bcrypt.hash\<close> by a function whose digests have at least 6 characters
  for the same passwords; then the response to a request is the same, on any route, and
  so is the collection that the request leaves, but for its digests. The body of a
  successful registration is the message, the token and the projection \<open>public_user\<close>
  of the record that is added, whose username and email are those of the request after
  the cast and the setters of the schema; the body of a successful login is the message,
  the token and the projection of a record of the collection; the body of
  \<^verbatim>\<open>/api/verify\<close> is the projection of the authenticated record; the body of
  \<^verbatim>\<open>GET /api/books\<close> is made of the \<^verbatim>\<open>books\<close> of a record. The projection has the
  three fields \<^verbatim>\<open>id\<close>, \<^verbatim>\<open>username\<close> and \<^verbatim>\<open>email\<close>, and the token is signed over the
  identifier.
\<close>

theorem password_hash_not_in_responses:
  assumes "\<forall>u \<in> set s. \<forall>pw. bcrypt_compare e pw (f u) = bcrypt_compare e pw (user.password u)"
    and "\<forall>pw. (length (h pw) < 6) = (length (bcrypt_hash e pw) < 6)"
  shows "fst (app (e\<lparr>bcrypt_hash := h\<rparr>) (rehash f s) req) = fst (app e s req)
       \<and> without_digests (snd (app (e\<lparr>bcrypt_hash := h\<rparr>) (rehash f s) req))
           = without_digests (snd (app e s req))
       \<and> (register e others s b = (Response 201 p, s') \<longrightarrow>
            (\<exists>u. s' = others s @ [u]
               \<and> map_option trim (cast_string e (value_of (req_body.username b)))
                   = Some (user.username u)
               \<and> map_option (\<lambda>x. toLowerCase (trim x))
                     (cast_string e (value_of (req_body.email b)))
                   = Some (user.email u)
               \<and> p = JObj [(''message'', JStr ''User created successfully''),
                            (''token'', JStr (issue_token e u)), (''user'', public_user u)]))
       \<and> (login e s b = (Response 200 p, s') \<longrightarrow>
            (\<exists>u \<in> set s. p = JObj [(''message'', JStr ''Login successful''),
                             (''token'', JStr (issue_token e u)), (''user'', public_user u)]))
       \<and> (protected e s req (verify s) = (Response 200 p, s') \<longrightarrow>
            (\<exists>u \<in> set s. authenticateToken e s req = Inr u
               \<and> p = JObj [(''user'', public_user u)]))
       \<and> (protected e s req (get_books s) = (Response 200 p, s') \<longrightarrow>
            (\<exists>u \<in> set s. p = hydrate_books (user.books u)))
       \<and> public_user v = JObj [(''id'', JNum (int (oid v))),
                                 (''username'', JStr (user.username v)),
                                 (''email'', JStr (user.email v))]
       \<and> issue_token e v = jws_encode e (jwt_sign (oid v) (secret e) (now e))"
proof (intro conjI impI)
  show "fst (app (e\<lparr>bcrypt_hash := h\<rparr>) (rehash f s) req) = fst (app e s req)"
    using assms by (rule app_rehash)
next
  show "without_digests (snd (app (e\<lparr>bcrypt_hash := h\<rparr>) (rehash f s) req))
           = without_digests (snd (app e s req))"
    using assms by (rule app_rehash)
next
  assume "register e others s b = (Response 201 p, s')"
  from register_created [OF this]
  obtain name address plain where
    c: "cast_string e (value_of (req_body.username b)) = Some name"
      "cast_string e (value_of (req_body.email b)) = Some address"
    and s': "s' = others s @ [new_User (others s) name address (bcrypt_hash e plain) empty_books]"
    and p: "p = JObj [(''message'', JStr ''User created successfully''),
                        (''token'', JStr (issue_token e
                           (new_User (others s) name address (bcrypt_hash e plain) empty_books))),
                        (''user'', public_user
                           (new_User (others s) name address (bcrypt_hash e plain) empty_books))]"
    by blast
  let ?u = "new_User (others s) name address (bcrypt_hash e plain) empty_books"
  have "user.username ?u = trim name" "user.email ?u = toLowerCase (trim address)"
    by (simp_all add: new_User_def)
  with c s' p
  have "s' = others s @ [?u]
      \<and> map_option trim (cast_string e (value_of (req_body.username b)))
          = Some (user.username ?u)
      \<and> map_option (\<lambda>x. toLowerCase (trim x)) (cast_string e (value_of (req_body.email b)))
          = Some (user.email ?u)
      \<and> p = JObj [(''message'', JStr ''User created successfully''),
                   (''token'', JStr (issue_token e ?u)), (''user'', public_user ?u)]"
    by simp
  then show "\<exists>u. s' = others s @ [u]
      \<and> map_option trim (cast_string e (value_of (req_body.username b)))
          = Some (user.username u)
      \<and> map_option (\<lambda>x. toLowerCase (trim x)) (cast_string e (value_of (req_body.email b)))
          = Some (user.email u)
      \<and> p = JObj [(''message'', JStr ''User created successfully''),
                   (''token'', JStr (issue_token e u)), (''user'', public_user u)]"
    by (rule exI)
next
  assume "login e s b = (Response 200 p, s')"
  then show "\<exists>u \<in> set s. p = JObj [(''message'', JStr ''Login successful''),
                       (''token'', JStr (issue_token e u)), (''user'', public_user u)]"
    by (rule login_succeeded)
next
  assume "protected e s req (verify s) = (Response 200 p, s')"
  from protected_succeeded [OF this]
  show "\<exists>u \<in> set s. authenticateToken e s req = Inr u \<and> p = JObj [(''user'', public_user u)]"
    by (auto simp: verify_def)
next
  assume "protected e s req (get_books s) = (Response 200 p, s')"
  from protected_succeeded [OF this]
  obtain u where "get_books s u = (Response 200 p, s')"
    by blast
  from get_books_succeeded [OF this]
  show "\<exists>u \<in> set s. p = hydrate_books (user.books u)"
    by blast
qed (simp_all add: public_user_def issue_token_def)

theorem password_hash_not_in_responses_witness:
  "(\<forall>pw. bcrypt_compare example_env pw (resalt alice)
           = bcrypt_compare example_env pw (user.password alice))
   \<and> (\<forall>pw. (length (''$t'' @ pw) < 6) = (length (bcrypt_hash example_env pw) < 6))
   \<and> rehash resalt [alice] = [alice\<lparr>user.password := ''$tsecret1''\<rparr>]
   \<and> fst (app (example_env\<lparr>bcrypt_hash := (@) ''$t''\<rparr>) (rehash resalt [alice])
        (request_with ''POST'' ''/api/login'' None (login_body ''alice'' ''secret1'')))
     = Response 200
        (JObj [(''message'', JStr ''Login successful''), (''token'', JStr ''tok''),
               (''user'', JObj [(''id'', JNum 0), (''username'', JStr ''alice''),
                               (''email'', JStr ''alice@example.com'')])])
   \<and> fst (app (example_env\<lparr>bcrypt_hash := (@) ''$t''\<rparr>) (rehash resalt [])
        (request_with ''POST'' ''/api/register'' None
           (register_body ''alice'' ''alice@example.com'' ''secret1'')))
     = Response 201
        (JObj [(''message'', JStr ''User created successfully''), (''token'', JStr ''tok''),
               (''user'', JObj [(''id'', JNum 0), (''username'', JStr ''alice''),
                               (''email'', JStr ''alice@example.com'')])])"
proof -
  have same: "\<forall>u \<in> set [alice]. \<forall>pw.
      bcrypt_compare example_env pw (resalt u) = bcrypt_compare example_env pw (user.password u)"
    by (simp add: resalt_def)
  have none: "\<forall>u \<in> set []. \<forall>pw.
      bcrypt_compare example_env pw (resalt u) = bcrypt_compare example_env pw (user.password u)"
    by simp
  have len: "\<forall>pw. (length (''$t'' @ pw) < 6) = (length (bcrypt_hash example_env pw) < 6)"
    by simp
  have stored: "rehash resalt [alice] = [alice\<lparr>user.password := ''$tsecret1''\<rparr>]"
    by (simp add: rehash_def resalt_def alice_def)
  have "fst (app (example_env\<lparr>bcrypt_hash := (@) ''$t''\<rparr>) (rehash resalt [alice])
        (request_with ''POST'' ''/api/login'' None (login_body ''alice'' ''secret1'')))
     = fst (app example_env [alice]
        (request_with ''POST'' ''/api/login'' None (login_body ''alice'' ''secret1'')))"
    using password_hash_not_in_responses [OF same len] by blast
  moreover have "fst (app (example_env\<lparr>bcrypt_hash := (@) ''$t''\<rparr>) (rehash resalt [])
        (request_with ''POST'' ''/api/register'' None
           (register_body ''alice'' ''alice@example.com'' ''secret1'')))
     = fst (app example_env []
        (request_with ''POST'' ''/api/register'' None
           (register_body ''alice'' ''alice@example.com'' ''secret1'')))"
    using password_hash_not_in_responses [OF none len] by blast
  ultimately show ?thesis
    using same len stored by (simp add: app_login_example app_register_example)
qed

subsection \<open>\<^verbatim>\<open>PUT /api/books\<close>, then \<^verbatim>\<open>GET /api/books\<close>\<close>




end
